theory Spec2Isabelle
  imports Main "HOL-Library.Word"
begin

section \<open>Selection tracking of the terminal core (TerminalSelection.cpp)\<close>

text \<open>
  A shallow embedding of \<^verbatim>\<open>src/cascadia/TerminalCore/TerminalSelection.cpp\<close>.
  The member functions of \<^verbatim>\<open>Terminal\<close> become functions on a record of the members
  they read and write. A C++ exception is a value \<open>Inl e\<close>; a call that never returns
  is \<open>None\<close>.
\<close>

subsection \<open>Data\<close>

text \<open>\<^verbatim>\<open>SHORT\<close> is a signed 16-bit integer: comparisons read it through \<open>sint\<close>
  (\<open>\<le>s\<close>, \<open><s\<close>), and \<open>+\<close> wraps.\<close>

type_synonym SHORT = "16 word"

type_synonym wstring = "16 word list"

record COORD =
  X :: SHORT
  Y :: SHORT

record SMALL_RECT =
  Left :: SHORT
  Top :: SHORT
  Right :: SHORT
  Bottom :: SHORT

datatype DbcsAttribute = Single | Leading | Trailing

definition IsLeading :: "DbcsAttribute \<Rightarrow> bool" where
  "IsLeading a = (a = Leading)"

definition IsTrailing :: "DbcsAttribute \<Rightarrow> bool" where
  "IsTrailing a = (a = Trailing)"

text \<open>
  The two exceptions the file can raise: \<^verbatim>\<open>THROW_IF_FAILED\<close> on the failure code of
  \<^verbatim>\<open>ShortAdd\<close>/\<^verbatim>\<open>ShortSub\<close> (an arithmetic overflow), and the narrowing error of
  \<^verbatim>\<open>gsl::narrow\<close>.
\<close>

datatype error = ArithmeticOverflow | NarrowingError

text \<open>
  The text buffer and the viewport are collaborators whose code is not part of this
  file. Each is a record of the operations this file calls on it, so that every
  statement below holds for any implementation of them. The operations are taken to
  return: what the collaborators do on a position outside the buffer is not part of this
  model.
  \<^item> \<open>CellDbcsAttr\<close> is \<^verbatim>\<open>_buffer->GetCellDataAt(position)->DbcsAttr()\<close>;
  \<^item> \<open>RightInclusive\<close> is \<^verbatim>\<open>_buffer->GetSize().RightInclusive()\<close>;
  \<^item> \<open>RowFragment\<close> gives the text of one row rectangle for the clipboard (see
    \<open>GetTextForClipboard\<close> below);
  \<^item> \<open>DecrementInBounds\<close> and \<open>IncrementInBounds\<close> take the position and return the
    success flag with the position as the call leaves it.
\<close>

record TextBuffer =
  CellDbcsAttr :: "COORD \<Rightarrow> DbcsAttribute"
  RightInclusive :: SHORT
  RowFragment :: "bool \<Rightarrow> bool \<Rightarrow> SMALL_RECT list \<Rightarrow> nat \<Rightarrow> wstring"

record Viewport =
  DecrementInBounds :: "COORD \<Rightarrow> bool \<times> COORD"
  IncrementInBounds :: "COORD \<Rightarrow> bool \<times> COORD"

text \<open>
  The members of \<^verbatim>\<open>Terminal\<close> that the file uses. \<open>scrollOffset\<close> is the C++
  \<^verbatim>\<open>int\<close> member \<^verbatim>\<open>_scrollOffset\<close>. \<open>ViewStartIndex\<close> is the value of
  \<^verbatim>\<open>_ViewStartIndex()\<close>, a member function defined outside this file (the absolute row
  at the top of the viewport, in the words of the specification); it is a component of
  the state here. Both are only narrowed to \<^verbatim>\<open>SHORT\<close> in this file, never computed
  with, so they are integers.
\<close>

record Terminal =
  selectionActive :: bool
  selectionAnchor :: COORD
  endSelectionPosition :: COORD
  selectionAnchor_YOffset :: SHORT
  endSelectionPosition_YOffset :: SHORT
  boxSelection :: bool
  scrollOffset :: int
  ViewStartIndex :: int
  buffer :: TextBuffer
  mutableViewport :: Viewport

subsection \<open>Checked arithmetic\<close>

definition SHORT_MIN :: int where
  "SHORT_MIN = - 32768"

definition SHORT_MAX :: int where
  "SHORT_MAX = 32767"

definition in_SHORT :: "int \<Rightarrow> bool" where
  "in_SHORT v = (SHORT_MIN \<le> v \<and> v \<le> SHORT_MAX)"

text \<open>\<^verbatim>\<open>ShortAdd\<close> and \<^verbatim>\<open>ShortSub\<close> compute in a wider type and fail when the result
  does not fit; \<^verbatim>\<open>THROW_IF_FAILED\<close> turns the failure into the exception.\<close>

definition ShortAdd :: "SHORT \<Rightarrow> SHORT \<Rightarrow> error + SHORT" where
  "ShortAdd a b =
     (let r = sint a + sint b
      in if in_SHORT r then Inr (word_of_int r) else Inl ArithmeticOverflow)"

definition ShortSub :: "SHORT \<Rightarrow> SHORT \<Rightarrow> error + SHORT" where
  "ShortSub a b =
     (let r = sint a - sint b
      in if in_SHORT r then Inr (word_of_int r) else Inl ArithmeticOverflow)"

text \<open>\<^verbatim>\<open>gsl::narrow<SHORT>\<close> throws when the value changes under the cast.\<close>

definition narrow_SHORT :: "int \<Rightarrow> error + SHORT" where
  "narrow_SHORT v = (if in_SHORT v then Inr (word_of_int v) else Inl NarrowingError)"

definition min_SHORT :: "SHORT \<Rightarrow> SHORT \<Rightarrow> SHORT" where
  "min_SHORT a b = (if b <s a then b else a)"

definition max_SHORT :: "SHORT \<Rightarrow> SHORT \<Rightarrow> SHORT" where
  "max_SHORT a b = (if a <s b then b else a)"

subsection \<open>Wide-glyph expansion\<close>

definition ExpandWideGlyphSelection_Left :: "Terminal \<Rightarrow> SHORT \<Rightarrow> SHORT \<Rightarrow> SHORT" where
  "ExpandWideGlyphSelection_Left t x_pos y_pos =
     (let position = \<lparr>X = x_pos, Y = y_pos\<rparr>;
          attr = CellDbcsAttr (buffer t) position
      in if IsTrailing attr then
           (case DecrementInBounds (mutableViewport t) position of
              (fSuccess, position1) \<Rightarrow>
                if \<not> fSuccess
                then X (snd (IncrementInBounds (mutableViewport t) position1))
                else X position1)
         else X position)"

definition ExpandWideGlyphSelection_Right :: "Terminal \<Rightarrow> SHORT \<Rightarrow> SHORT \<Rightarrow> SHORT" where
  "ExpandWideGlyphSelection_Right t x_pos y_pos =
     (let position = \<lparr>X = x_pos, Y = y_pos\<rparr>;
          attr = CellDbcsAttr (buffer t) position
      in if IsLeading attr then
           (case IncrementInBounds (mutableViewport t) position of
              (fSuccess, position1) \<Rightarrow>
                if \<not> fSuccess
                then X (snd (DecrementInBounds (mutableViewport t) position1))
                else X position1)
         else X position)"

subsection \<open>The selected rows\<close>

text \<open>The bounds of one row as the loop body assigns them, before the two expansions.\<close>

definition rowLeft :: "Terminal \<Rightarrow> COORD \<Rightarrow> COORD \<Rightarrow> SHORT \<Rightarrow> SHORT" where
  "rowLeft t higherCoord lowerCoord row =
     (if boxSelection t \<or> Y higherCoord = Y lowerCoord
      then min_SHORT (X higherCoord) (X lowerCoord)
      else if row = Y higherCoord then X higherCoord else 0)"

definition rowRight :: "Terminal \<Rightarrow> COORD \<Rightarrow> COORD \<Rightarrow> SHORT \<Rightarrow> SHORT" where
  "rowRight t higherCoord lowerCoord row =
     (if boxSelection t \<or> Y higherCoord = Y lowerCoord
      then max_SHORT (X higherCoord) (X lowerCoord)
      else if row = Y lowerCoord then X lowerCoord else RightInclusive (buffer t))"

text \<open>The loop body: the rectangle appended for \<open>row\<close>.\<close>

definition selectionRow :: "Terminal \<Rightarrow> COORD \<Rightarrow> COORD \<Rightarrow> SHORT \<Rightarrow> SMALL_RECT" where
  "selectionRow t higherCoord lowerCoord row =
     \<lparr>Left = ExpandWideGlyphSelection_Left t (rowLeft t higherCoord lowerCoord row) row,
      Top = row,
      Right = ExpandWideGlyphSelection_Right t (rowRight t higherCoord lowerCoord row) row,
      Bottom = row\<rparr>"

text \<open>
  The \<^verbatim>\<open>for\<close> loop. Its counter is a \<^verbatim>\<open>SHORT\<close>: \<^verbatim>\<open>row++\<close> wraps from 32767 to
  -32768, after which \<^verbatim>\<open>row <= lowerCoord.Y\<close> holds again, so the loop need not end.
  \<open>None\<close> is the call that does not return.
\<close>

partial_function (option) selectionLoop ::
  "Terminal \<Rightarrow> COORD \<Rightarrow> COORD \<Rightarrow> SHORT \<Rightarrow> SMALL_RECT list \<Rightarrow> SMALL_RECT list option" where
  "selectionLoop t higherCoord lowerCoord row selectionArea =
     (if row \<le>s Y lowerCoord
      then selectionLoop t higherCoord lowerCoord (row + 1)
             (selectionArea @ [selectionRow t higherCoord lowerCoord row])
      else Some selectionArea)"

declare selectionLoop.simps [code]

definition GetSelectionRects :: "Terminal \<Rightarrow> (error + SMALL_RECT list) option" where
  "GetSelectionRects t =
     (if \<not> selectionActive t then Some (Inr [])
      else
        case ShortAdd (Y (selectionAnchor t)) (selectionAnchor_YOffset t) of
          Inl e \<Rightarrow> Some (Inl e)
        | Inr temp1 \<Rightarrow>
            (case ShortAdd (Y (endSelectionPosition t)) (endSelectionPosition_YOffset t) of
               Inl e \<Rightarrow> Some (Inl e)
             | Inr temp2 \<Rightarrow>
                 (let selectionAnchorWithOffset = \<lparr>X = X (selectionAnchor t), Y = temp1\<rparr>;
                      endSelectionPositionWithOffset = \<lparr>X = X (endSelectionPosition t), Y = temp2\<rparr>;
                      higherCoord =
                        (if Y selectionAnchorWithOffset \<le>s Y endSelectionPositionWithOffset
                         then selectionAnchorWithOffset else endSelectionPositionWithOffset);
                      lowerCoord =
                        (if Y endSelectionPositionWithOffset <s Y selectionAnchorWithOffset
                         then selectionAnchorWithOffset else endSelectionPositionWithOffset)
                  in map_option Inr
                       (selectionLoop t higherCoord lowerCoord (Y higherCoord) []))))"

subsection \<open>Mutation and state queries\<close>

text \<open>
  The two recording functions assign the position first and adjust its row in place. The
  arguments of \<^verbatim>\<open>ShortSub\<close> are evaluated before the call, so the narrowing of the scroll
  offset comes before the subtraction. A call that throws returns the exception only:
  the members it had assigned by then are not part of the result.
\<close>

definition IsSelectionActive :: "Terminal \<Rightarrow> bool" where
  "IsSelectionActive t = selectionActive t"

definition SetEndSelectionPosition :: "Terminal \<Rightarrow> COORD \<Rightarrow> error + Terminal" where
  "SetEndSelectionPosition t position =
     (let t1 = t\<lparr>endSelectionPosition := position\<rparr>
      in case narrow_SHORT (scrollOffset t1) of
           Inl e \<Rightarrow> Inl e
         | Inr so \<Rightarrow>
             (case ShortSub (Y (endSelectionPosition t1)) so of
                Inl e \<Rightarrow> Inl e
              | Inr y \<Rightarrow>
                  (let t2 = t1\<lparr>endSelectionPosition := (endSelectionPosition t1)\<lparr>Y := y\<rparr>\<rparr>
                   in case narrow_SHORT (ViewStartIndex t2) of
                        Inl e \<Rightarrow> Inl e
                      | Inr off \<Rightarrow> Inr (t2\<lparr>endSelectionPosition_YOffset := off\<rparr>))))"

definition SetSelectionAnchor :: "Terminal \<Rightarrow> COORD \<Rightarrow> error + Terminal" where
  "SetSelectionAnchor t position =
     (let t1 = t\<lparr>selectionAnchor := position\<rparr>
      in case narrow_SHORT (scrollOffset t1) of
           Inl e \<Rightarrow> Inl e
         | Inr so \<Rightarrow>
             (case ShortSub (Y (selectionAnchor t1)) so of
                Inl e \<Rightarrow> Inl e
              | Inr y \<Rightarrow>
                  (let t2 = t1\<lparr>selectionAnchor := (selectionAnchor t1)\<lparr>Y := y\<rparr>\<rparr>
                   in case narrow_SHORT (ViewStartIndex t2) of
                        Inl e \<Rightarrow> Inl e
                      | Inr off \<Rightarrow>
                          (let t3 = t2\<lparr>selectionAnchor_YOffset := off\<rparr>;
                               t4 = t3\<lparr>selectionActive := True\<rparr>
                           in SetEndSelectionPosition t4 position))))"

definition SetBoxSelection :: "Terminal \<Rightarrow> bool \<Rightarrow> Terminal" where
  "SetBoxSelection t isEnabled = t\<lparr>boxSelection := isEnabled\<rparr>"

definition ClearSelection :: "Terminal \<Rightarrow> Terminal" where
  "ClearSelection t =
     t\<lparr>selectionActive := False,
       selectionAnchor := \<lparr>X = 0, Y = 0\<rparr>,
       endSelectionPosition := \<lparr>X = 0, Y = 0\<rparr>,
       selectionAnchor_YOffset := 0,
       endSelectionPosition_YOffset := 0\<rparr>"

subsection \<open>Text extraction\<close>

text \<open>
  Modelled from the spec: \<^verbatim>\<open>TextBuffer::GetTextForClipboard\<close> is not in this file. The
  specification says that it returns per-row text fragments for the row rectangles it is
  given, with any line breaks embedded in the fragments: one fragment for each rectangle,
  which may depend on both flags, on all the rectangles and on the position of the row.
  The colour callbacks are forwarded unread and do not affect the text.
\<close>

definition GetTextForClipboard ::
  "TextBuffer \<Rightarrow> bool \<Rightarrow> bool \<Rightarrow> SMALL_RECT list \<Rightarrow> wstring list" where
  "GetTextForClipboard buf lineSelection trimTrailingWhitespace selectionRects =
     map (RowFragment buf lineSelection trimTrailingWhitespace selectionRects)
       [0..<length selectionRects]"

definition RetrieveSelectedTextFromBuffer :: "Terminal \<Rightarrow> bool \<Rightarrow> (error + wstring) option" where
  "RetrieveSelectedTextFromBuffer t trimTrailingWhitespace =
     (case GetSelectionRects t of
        None \<Rightarrow> None
      | Some (Inl e) \<Rightarrow> Some (Inl e)
      | Some (Inr rects) \<Rightarrow>
          Some (Inr (concat (GetTextForClipboard (buffer t) (\<not> boxSelection t)
                               trimTrailingWhitespace rects))))"

subsection \<open>The viewport of the specification\<close>

text \<open>
  Modelled from the spec: \<^verbatim>\<open>Viewport::DecrementInBounds\<close> and
  \<^verbatim>\<open>Viewport::IncrementInBounds\<close> are not in this file. The specification describes
  them as the bounds-clamped single-column decrement and increment of a coordinate, which
  return success or failure rather than wrapping or going out of range: the column moves
  by one when the moved column lies in the addressable range \<open>lo .. hi\<close>, and otherwise
  the call fails and leaves the position as it was.
\<close>

definition ClampedViewport :: "SHORT \<Rightarrow> SHORT \<Rightarrow> Viewport" where
  "ClampedViewport lo hi =
     \<lparr>DecrementInBounds =
        (\<lambda>pos. if sint lo \<le> sint (X pos) - 1 \<and> sint (X pos) - 1 \<le> sint hi
               then (True, pos\<lparr>X := X pos - 1\<rparr>) else (False, pos)),
      IncrementInBounds =
        (\<lambda>pos. if sint lo \<le> sint (X pos) + 1 \<and> sint (X pos) + 1 \<le> sint hi
               then (True, pos\<lparr>X := X pos + 1\<rparr>) else (False, pos))\<rparr>"

subsection \<open>Notions used by the statements\<close>

text \<open>The absolute row of an endpoint: its recorded row plus its frozen row offset,
  as an integer.\<close>

definition anchorAbsoluteRow :: "Terminal \<Rightarrow> int" where
  "anchorAbsoluteRow t = sint (Y (selectionAnchor t)) + sint (selectionAnchor_YOffset t)"

definition endAbsoluteRow :: "Terminal \<Rightarrow> int" where
  "endAbsoluteRow t = sint (Y (endSelectionPosition t)) + sint (endSelectionPosition_YOffset t)"

text \<open>The endpoint with the smaller absolute row and the one with the larger; on a tie
  the top one is the anchor and the bottom one the end, as in the source.\<close>

definition topEndpoint :: "Terminal \<Rightarrow> COORD" where
  "topEndpoint t =
     (if anchorAbsoluteRow t \<le> endAbsoluteRow t
      then \<lparr>X = X (selectionAnchor t), Y = word_of_int (anchorAbsoluteRow t)\<rparr>
      else \<lparr>X = X (endSelectionPosition t), Y = word_of_int (endAbsoluteRow t)\<rparr>)"

definition bottomEndpoint :: "Terminal \<Rightarrow> COORD" where
  "bottomEndpoint t =
     (if endAbsoluteRow t < anchorAbsoluteRow t
      then \<lparr>X = X (selectionAnchor t), Y = word_of_int (anchorAbsoluteRow t)\<rparr>
      else \<lparr>X = X (endSelectionPosition t), Y = word_of_int (endAbsoluteRow t)\<rparr>)"

text \<open>The rows \<open>a, a + 1, ..., b\<close> (none when \<open>b\<close> is above \<open>a\<close>).\<close>

definition rowsFromTo :: "SHORT \<Rightarrow> SHORT \<Rightarrow> SHORT list" where
  "rowsFromTo a b = map word_of_int [sint a .. sint b]"

text \<open>
  The bounds of a row of a multi-row stream selection in the words of the specification,
  before wide-glyph correction: the first row runs from the top endpoint's column to the
  rightmost column, the last row from column 0 to the bottom endpoint's column, and every
  row between them over the full width.
\<close>

definition specStreamBounds :: "SHORT \<Rightarrow> COORD \<Rightarrow> COORD \<Rightarrow> SHORT \<Rightarrow> SHORT \<times> SHORT" where
  "specStreamBounds rightmost topPos bottomPos row =
     (if row = Y topPos then (X topPos, rightmost)
      else if row = Y bottomPos then (0, X bottomPos)
      else (0, rightmost))"

text \<open>The rectangle of a row with the given bounds before correction: both edges are
  passed through the wide-glyph expansion of the source.\<close>

definition correctedRow :: "Terminal \<Rightarrow> SHORT \<times> SHORT \<Rightarrow> SHORT \<Rightarrow> SMALL_RECT" where
  "correctedRow t bounds row =
     \<lparr>Left = ExpandWideGlyphSelection_Left t (fst bounds) row,
      Top = row,
      Right = ExpandWideGlyphSelection_Right t (snd bounds) row,
      Bottom = row\<rparr>"

text \<open>
  The two fallbacks of the wide-glyph correction under the bounds-clamped viewport with
  columns \<open>lo .. hi\<close>. The left edge at column \<open>x\<close> falls forward when its cell is a
  trailing half, the column before it is out of range and the column after it is in
  range. The right edge falls back when its cell is a leading half, the column after it
  is out of range and the column before it is in range.
\<close>

definition leftFallsForward :: "TextBuffer \<Rightarrow> SHORT \<Rightarrow> SHORT \<Rightarrow> SHORT \<Rightarrow> SHORT \<Rightarrow> bool" where
  "leftFallsForward buf lo hi x y =
     (CellDbcsAttr buf \<lparr>X = x, Y = y\<rparr> = Trailing
      \<and> \<not> (sint lo \<le> sint x - 1 \<and> sint x - 1 \<le> sint hi)
      \<and> sint lo \<le> sint x + 1 \<and> sint x + 1 \<le> sint hi)"

definition rightFallsBack :: "TextBuffer \<Rightarrow> SHORT \<Rightarrow> SHORT \<Rightarrow> SHORT \<Rightarrow> SHORT \<Rightarrow> bool" where
  "rightFallsBack buf lo hi x y =
     (CellDbcsAttr buf \<lparr>X = x, Y = y\<rparr> = Leading
      \<and> \<not> (sint lo \<le> sint x + 1 \<and> sint x + 1 \<le> sint hi)
      \<and> sint lo \<le> sint x - 1 \<and> sint x - 1 \<le> sint hi)"

text \<open>
  The rows on which a fallback makes the corrected edges cross, given the bounds \<open>l\<close> and
  \<open>r\<close> of the row before correction: a one-column row whose left edge falls forward, a
  one-column row whose right edge falls back, and a two-column row on which both happen.
\<close>

definition edgesCross :: "TextBuffer \<Rightarrow> SHORT \<Rightarrow> SHORT \<Rightarrow> SHORT \<Rightarrow> SHORT \<Rightarrow> SHORT \<Rightarrow> bool" where
  "edgesCross buf lo hi l r y =
     (leftFallsForward buf lo hi l y \<and> r = l
      \<or> rightFallsBack buf lo hi r y \<and> r = l
      \<or> leftFallsForward buf lo hi l y \<and> rightFallsBack buf lo hi r y \<and> sint r = sint l + 1)"

text \<open>The sequence of absolute rows of a result: the \<open>Top\<close> of each rectangle, with an
  exception or a call that does not return kept as it is.\<close>

definition absoluteRows :: "(error + SMALL_RECT list) option \<Rightarrow> (error + SHORT list) option" where
  "absoluteRows res = map_option (map_sum id (map Top)) res"

subsection \<open>Concrete terminals\<close>

text \<open>A buffer without wide glyphs whose rightmost column is \<open>r\<close>, and a buffer of the
  same width with one wide glyph in row \<open>y\<close>, its leading half in column \<open>x\<close> and its
  trailing half in the next column.\<close>

definition plainBuffer :: "SHORT \<Rightarrow> TextBuffer" where
  "plainBuffer r =
     \<lparr>CellDbcsAttr = (\<lambda>pos. Single), RightInclusive = r,
      RowFragment = (\<lambda>lineSelection trim rects i. [])\<rparr>"

definition wideGlyphBuffer :: "SHORT \<Rightarrow> SHORT \<Rightarrow> SHORT \<Rightarrow> TextBuffer" where
  "wideGlyphBuffer r x y =
     \<lparr>CellDbcsAttr =
        (\<lambda>pos. if Y pos = y \<and> X pos = x then Leading
               else if Y pos = y \<and> X pos = x + 1 then Trailing else Single),
      RightInclusive = r,
      RowFragment = (\<lambda>lineSelection trim rects i. [])\<rparr>"

text \<open>A buffer whose only wide-glyph cell is a trailing half at column \<open>x\<close> of row
  \<open>y\<close>.\<close>

definition trailingOnlyBuffer :: "SHORT \<Rightarrow> SHORT \<Rightarrow> SHORT \<Rightarrow> TextBuffer" where
  "trailingOnlyBuffer r x y =
     \<lparr>CellDbcsAttr = (\<lambda>pos. if Y pos = y \<and> X pos = x then Trailing else Single),
      RightInclusive = r,
      RowFragment = (\<lambda>lineSelection trim rects i. [])\<rparr>"

text \<open>A terminal without a selection.\<close>

definition idleTerminal :: "TextBuffer \<Rightarrow> Viewport \<Rightarrow> int \<Rightarrow> int \<Rightarrow> Terminal" where
  "idleTerminal buf vp so vs =
     \<lparr>selectionActive = False,
      selectionAnchor = \<lparr>X = 0, Y = 0\<rparr>,
      endSelectionPosition = \<lparr>X = 0, Y = 0\<rparr>,
      selectionAnchor_YOffset = 0,
      endSelectionPosition_YOffset = 0,
      boxSelection = False,
      scrollOffset = so,
      ViewStartIndex = vs,
      buffer = buf,
      mutableViewport = vp\<rparr>"

text \<open>A terminal with an active selection from \<open>a\<close> to \<open>e\<close>, both recorded with row
  offset \<open>off\<close>.\<close>

definition selectingTerminal ::
  "TextBuffer \<Rightarrow> Viewport \<Rightarrow> bool \<Rightarrow> COORD \<Rightarrow> COORD \<Rightarrow> SHORT \<Rightarrow> Terminal" where
  "selectingTerminal buf vp box a e off =
     \<lparr>selectionActive = True,
      selectionAnchor = a,
      endSelectionPosition = e,
      selectionAnchor_YOffset = off,
      endSelectionPosition_YOffset = off,
      boxSelection = box,
      scrollOffset = 0,
      ViewStartIndex = sint off,
      buffer = buf,
      mutableViewport = vp\<rparr>"

section \<open>Auxiliary facts\<close>

subsection \<open>Signed 16-bit facts\<close>

lemma sint_SHORT_bounds: "- 32768 \<le> sint (w :: SHORT) \<and> sint w \<le> 32767"
  using sint_ge [of w] sint_lt [of w] by simp

lemma sint_word_of_int_SHORT:
  "- 32768 \<le> i \<Longrightarrow> i \<le> 32767 \<Longrightarrow> sint (word_of_int i :: SHORT) = i"
  by (simp add: signed_of_int signed_take_bit_int_eq_self)

lemma sint_in_SHORT: "in_SHORT i \<Longrightarrow> sint (word_of_int i :: SHORT) = i"
  by (simp add: in_SHORT_def SHORT_MIN_def SHORT_MAX_def sint_word_of_int_SHORT)

lemma in_SHORT_sint: "in_SHORT (sint (w :: SHORT))"
  using sint_SHORT_bounds [of w] by (simp add: in_SHORT_def SHORT_MIN_def SHORT_MAX_def)

lemma sint_succ_SHORT: "sint (w :: SHORT) < 32767 \<Longrightarrow> sint (w + 1) = sint w + 1"
proof -
  assume a: "sint w < 32767"
  have "w + 1 = word_of_int (sint w + 1)" by simp
  moreover have "sint (word_of_int (sint w + 1) :: SHORT) = sint w + 1"
    using a sint_SHORT_bounds [of w] by (intro sint_word_of_int_SHORT) auto
  ultimately show ?thesis by simp
qed

lemma sint_pred_SHORT: "- 32768 < sint (w :: SHORT) \<Longrightarrow> sint (w - 1) = sint w - 1"
proof -
  assume a: "- 32768 < sint w"
  have "w - 1 = word_of_int (sint w - 1)" by simp
  moreover have "sint (word_of_int (sint w - 1) :: SHORT) = sint w - 1"
    using a sint_SHORT_bounds [of w] by (intro sint_word_of_int_SHORT) auto
  ultimately show ?thesis by simp
qed


lemma min_SHORT_le_max_SHORT: "min_SHORT a b \<le>s max_SHORT a b"
  by (auto simp: min_SHORT_def max_SHORT_def word_sle_eq word_sless_alt)

subsection \<open>The loop in closed form\<close>

lemma selectionLoop_returns:
  assumes "sint (Y lowerCoord) < 32767"
  shows "selectionLoop t higherCoord lowerCoord row acc =
           Some (acc @ map (selectionRow t higherCoord lowerCoord) (rowsFromTo row (Y lowerCoord)))"
proof (induction "nat (sint (Y lowerCoord) + 1 - sint row)" arbitrary: row acc)
  case 0
  then have "\<not> row \<le>s Y lowerCoord" by (simp add: word_sle_eq)
  moreover from 0 have "rowsFromTo row (Y lowerCoord) = []" by (simp add: rowsFromTo_def)
  ultimately show ?case by (subst selectionLoop.simps) simp
next
  case (Suc n)
  then have le: "sint row \<le> sint (Y lowerCoord)" by simp
  with assms have lt: "sint row < 32767" by simp
  have s: "sint (row + 1) = sint row + 1" using lt by (rule sint_succ_SHORT)
  have n: "n = nat (sint (Y lowerCoord) + 1 - sint (row + 1))" using Suc(2) s by simp
  have r: "rowsFromTo row (Y lowerCoord) = row # rowsFromTo (row + 1) (Y lowerCoord)"
    using le s by (simp add: rowsFromTo_def upto_rec1)
  show ?case
    using Suc(1) [OF n] le r by (subst selectionLoop.simps) (simp add: word_sle_eq)
qed

lemma selectionLoop_Some_bound:
  assumes "selectionLoop t higherCoord lowerCoord row acc = Some rects"
  shows "sint (Y lowerCoord) \<noteq> 32767"
proof (rule selectionLoop.raw_induct
    [where P = "\<lambda>t h l row acc y. sint (Y l) \<noteq> 32767", OF _ assms])
  fix f :: "Terminal \<Rightarrow> COORD \<Rightarrow> COORD \<Rightarrow> SHORT \<Rightarrow> SMALL_RECT list \<Rightarrow> SMALL_RECT list option"
  fix t h l row acc y
  assume IH: "\<And>t h l row acc y. f t h l row acc = Some y \<Longrightarrow> sint (Y l) \<noteq> 32767"
  assume eq: "(if row \<le>s Y l then f t h l (row + 1) (acc @ [selectionRow t h l row])
               else Some acc) = Some y"
  show "sint (Y l) \<noteq> 32767"
  proof (cases "row \<le>s Y l")
    case True
    with eq have "f t h l (row + 1) (acc @ [selectionRow t h l row]) = Some y" by simp
    then show ?thesis by (rule IH)
  next
    case False
    then have "sint (Y l) < sint row" by (simp add: word_sle_eq)
    then show ?thesis using sint_SHORT_bounds [of row] by simp
  qed
qed

lemma selectionLoop_diverges:
  assumes "sint (Y lowerCoord) = 32767"
  shows "selectionLoop t higherCoord lowerCoord row acc = None"
  using assms selectionLoop_Some_bound [of t higherCoord lowerCoord row acc]
  by (cases "selectionLoop t higherCoord lowerCoord row acc") auto

subsection \<open>The selected rows in closed form\<close>

lemma ShortAdd_anchor:
  "ShortAdd (Y (selectionAnchor t)) (selectionAnchor_YOffset t) =
     (if in_SHORT (anchorAbsoluteRow t) then Inr (word_of_int (anchorAbsoluteRow t))
      else Inl ArithmeticOverflow)"
  by (simp add: ShortAdd_def anchorAbsoluteRow_def)

lemma ShortAdd_end:
  "ShortAdd (Y (endSelectionPosition t)) (endSelectionPosition_YOffset t) =
     (if in_SHORT (endAbsoluteRow t) then Inr (word_of_int (endAbsoluteRow t))
      else Inl ArithmeticOverflow)"
  by (simp add: ShortAdd_def endAbsoluteRow_def)

lemma GetSelectionRects_inactive:
  "\<not> selectionActive t \<Longrightarrow> GetSelectionRects t = Some (Inr [])"
  by (simp add: GetSelectionRects_def)

lemma GetSelectionRects_overflow:
  assumes "selectionActive t"
    and "\<not> in_SHORT (anchorAbsoluteRow t) \<or> \<not> in_SHORT (endAbsoluteRow t)"
  shows "GetSelectionRects t = Some (Inl ArithmeticOverflow)"
  using assms by (auto simp: GetSelectionRects_def ShortAdd_anchor ShortAdd_end)

lemma GetSelectionRects_loop:
  assumes "selectionActive t" "in_SHORT (anchorAbsoluteRow t)" "in_SHORT (endAbsoluteRow t)"
  shows "GetSelectionRects t =
           map_option Inr (selectionLoop t (topEndpoint t) (bottomEndpoint t) (Y (topEndpoint t)) [])"
  using assms
  by (simp add: GetSelectionRects_def ShortAdd_anchor ShortAdd_end Let_def
      topEndpoint_def bottomEndpoint_def word_sle_eq word_sless_alt sint_in_SHORT)

lemma sint_Y_bottomEndpoint:
  assumes "in_SHORT (anchorAbsoluteRow t)" "in_SHORT (endAbsoluteRow t)"
  shows "sint (Y (bottomEndpoint t)) = max (anchorAbsoluteRow t) (endAbsoluteRow t)"
  using assms by (simp add: bottomEndpoint_def sint_in_SHORT)

lemma sint_Y_topEndpoint:
  assumes "in_SHORT (anchorAbsoluteRow t)" "in_SHORT (endAbsoluteRow t)"
  shows "sint (Y (topEndpoint t)) = min (anchorAbsoluteRow t) (endAbsoluteRow t)"
  using assms by (simp add: topEndpoint_def sint_in_SHORT)

lemma GetSelectionRects_rows:
  assumes "selectionActive t" "in_SHORT (anchorAbsoluteRow t)" "in_SHORT (endAbsoluteRow t)"
    and "max (anchorAbsoluteRow t) (endAbsoluteRow t) < SHORT_MAX"
  shows "GetSelectionRects t =
           Some (Inr (map (selectionRow t (topEndpoint t) (bottomEndpoint t))
                        (rowsFromTo (Y (topEndpoint t)) (Y (bottomEndpoint t)))))"
proof -
  have "sint (Y (bottomEndpoint t)) < 32767"
    using assms by (simp add: sint_Y_bottomEndpoint SHORT_MAX_def)
  then show ?thesis
    using assms(1-3) by (simp add: GetSelectionRects_loop selectionLoop_returns)
qed

lemma GetSelectionRects_no_return:
  assumes "selectionActive t" "in_SHORT (anchorAbsoluteRow t)" "in_SHORT (endAbsoluteRow t)"
    and "max (anchorAbsoluteRow t) (endAbsoluteRow t) = SHORT_MAX"
  shows "GetSelectionRects t = None"
proof -
  have "sint (Y (bottomEndpoint t)) = 32767"
    using assms by (simp add: sint_Y_bottomEndpoint SHORT_MAX_def)
  then show ?thesis
    using assms(1-3) by (simp add: GetSelectionRects_loop selectionLoop_diverges)
qed

lemma GetSelectionRects_Inr_iff:
  "GetSelectionRects t = Some (Inr rects) \<longleftrightarrow>
     (if selectionActive t
      then in_SHORT (anchorAbsoluteRow t) \<and> in_SHORT (endAbsoluteRow t) \<and>
           max (anchorAbsoluteRow t) (endAbsoluteRow t) < SHORT_MAX \<and>
           rects = map (selectionRow t (topEndpoint t) (bottomEndpoint t))
                     (rowsFromTo (Y (topEndpoint t)) (Y (bottomEndpoint t)))
      else rects = [])"
proof (cases "selectionActive t")
  case False
  then show ?thesis by (auto simp: GetSelectionRects_inactive)
next
  case act: True
  show ?thesis
  proof (cases "in_SHORT (anchorAbsoluteRow t) \<and> in_SHORT (endAbsoluteRow t)")
    case False
    then show ?thesis using act GetSelectionRects_overflow [of t] by auto
  next
    case True
    then have m: "max (anchorAbsoluteRow t) (endAbsoluteRow t) \<le> SHORT_MAX"
      by (simp add: in_SHORT_def)
    show ?thesis
    proof (cases "max (anchorAbsoluteRow t) (endAbsoluteRow t) = SHORT_MAX")
      case True
      then show ?thesis using act \<open>in_SHORT _ \<and> in_SHORT _\<close> GetSelectionRects_no_return [of t] by auto
    next
      case False
      with m have "max (anchorAbsoluteRow t) (endAbsoluteRow t) < SHORT_MAX" by linarith
      then show ?thesis using act True GetSelectionRects_rows [of t] by auto
    qed
  qed
qed

subsection \<open>Absolute rows of the result\<close>

lemma map_Top_selectionRow: "map Top (map (selectionRow t h l) rows) = rows"
  by (induction rows) (simp_all add: selectionRow_def)

lemma map_Top_comp_selectionRow: "map (Top \<circ> selectionRow t h l) rows = rows"
  by (induction rows) (simp_all add: selectionRow_def)

lemma map_Bottom_selectionRow: "map Bottom (map (selectionRow t h l) rows) = rows"
  by (induction rows) (simp_all add: selectionRow_def)

lemma Y_topEndpoint:
  "Y (topEndpoint t) = word_of_int (min (anchorAbsoluteRow t) (endAbsoluteRow t))"
  by (simp add: topEndpoint_def min_def)

lemma Y_bottomEndpoint:
  "Y (bottomEndpoint t) = word_of_int (max (anchorAbsoluteRow t) (endAbsoluteRow t))"
  by (auto simp: bottomEndpoint_def max_def)

lemma absoluteRows_GetSelectionRects:
  "absoluteRows (GetSelectionRects t) =
     (if \<not> selectionActive t then Some (Inr [])
      else if \<not> (in_SHORT (anchorAbsoluteRow t) \<and> in_SHORT (endAbsoluteRow t))
      then Some (Inl ArithmeticOverflow)
      else if max (anchorAbsoluteRow t) (endAbsoluteRow t) = SHORT_MAX then None
      else Some (Inr (rowsFromTo
                        (word_of_int (min (anchorAbsoluteRow t) (endAbsoluteRow t)))
                        (word_of_int (max (anchorAbsoluteRow t) (endAbsoluteRow t))))))"
proof (cases "selectionActive t")
  case False
  then show ?thesis by (simp add: GetSelectionRects_inactive absoluteRows_def)
next
  case act: True
  show ?thesis
  proof (cases "in_SHORT (anchorAbsoluteRow t) \<and> in_SHORT (endAbsoluteRow t)")
    case False
    then show ?thesis
      using act GetSelectionRects_overflow [of t] by (auto simp: absoluteRows_def)
  next
    case True
    then have m: "max (anchorAbsoluteRow t) (endAbsoluteRow t) \<le> SHORT_MAX"
      by (simp add: in_SHORT_def)
    show ?thesis
    proof (cases "max (anchorAbsoluteRow t) (endAbsoluteRow t) = SHORT_MAX")
      case True
      then show ?thesis
        using act \<open>in_SHORT _ \<and> in_SHORT _\<close> GetSelectionRects_no_return [of t]
        by (simp add: absoluteRows_def)
    next
      case False
      with m have "max (anchorAbsoluteRow t) (endAbsoluteRow t) < SHORT_MAX" by linarith
      then have "GetSelectionRects t =
           Some (Inr (map (selectionRow t (topEndpoint t) (bottomEndpoint t))
                        (rowsFromTo (Y (topEndpoint t)) (Y (bottomEndpoint t)))))"
        using act True by (simp add: GetSelectionRects_rows)
      then show ?thesis
        using act True False
        by (simp add: absoluteRows_def map_Top_comp_selectionRow Y_topEndpoint Y_bottomEndpoint)
    qed
  qed
qed

lemma rowsFromTo_sint:
  assumes "in_SHORT a" "in_SHORT b"
  shows "map sint (rowsFromTo (word_of_int a) (word_of_int b)) = [a .. b]"
proof -
  have "\<And>i. i \<in> set [a .. b] \<Longrightarrow> sint (word_of_int i :: SHORT) = i"
    using assms by (intro sint_in_SHORT) (auto simp: in_SHORT_def)
  then have "map (\<lambda>i. sint (word_of_int i :: SHORT)) [a .. b] = map (\<lambda>i. i) [a .. b]"
    by (intro map_cong) auto
  then show ?thesis using assms by (simp add: rowsFromTo_def sint_in_SHORT o_def)
qed

subsection \<open>The shape of a row\<close>

lemma rowsFromTo_nonempty:
  assumes "in_SHORT a" "in_SHORT b" "a \<le> b"
  shows "rowsFromTo (word_of_int a) (word_of_int b) \<noteq> []
         \<and> hd (rowsFromTo (word_of_int a) (word_of_int b)) = word_of_int a
         \<and> last (rowsFromTo (word_of_int a) (word_of_int b)) = word_of_int b"
proof -
  have r: "rowsFromTo (word_of_int a) (word_of_int b) = map word_of_int [a .. b]"
    using assms by (simp add: rowsFromTo_def sint_in_SHORT)
  have h: "[a .. b] = a # [a + 1 .. b]" using assms(3) by (simp add: upto_rec1)
  have l: "[a .. b] = [a .. b - 1] @ [b]" using assms(3) by (simp add: upto_rec2)
  have "hd (map word_of_int [a .. b] :: SHORT list) = word_of_int a" by (subst h) simp
  moreover have "last (map word_of_int [a .. b] :: SHORT list) = word_of_int b" by (subst l) simp
  moreover have "(map word_of_int [a .. b] :: SHORT list) \<noteq> []" using assms(3) by simp
  ultimately show ?thesis by (simp only: r) simp
qed

lemma rowsFromTo_single:
  assumes "in_SHORT a"
  shows "rowsFromTo (word_of_int a) (word_of_int a) = [word_of_int a]"
  using assms by (simp add: rowsFromTo_def sint_in_SHORT)

lemma endpoints_differ:
  assumes "in_SHORT (anchorAbsoluteRow t)" "in_SHORT (endAbsoluteRow t)"
    and "anchorAbsoluteRow t \<noteq> endAbsoluteRow t"
  shows "Y (topEndpoint t) \<noteq> Y (bottomEndpoint t)"
proof
  assume "Y (topEndpoint t) = Y (bottomEndpoint t)"
  then have "sint (Y (topEndpoint t)) = sint (Y (bottomEndpoint t))" by simp
  then show False using assms by (simp add: sint_Y_topEndpoint sint_Y_bottomEndpoint)
qed

lemma endpoints_agree:
  assumes "anchorAbsoluteRow t = endAbsoluteRow t"
  shows "Y (topEndpoint t) = Y (bottomEndpoint t)"
  using assms by (simp add: Y_topEndpoint Y_bottomEndpoint)

lemma selectionRow_stream:
  assumes "\<not> boxSelection t" "Y h \<noteq> Y l"
  shows "selectionRow t h l row
           = correctedRow t (specStreamBounds (RightInclusive (buffer t)) h l row) row"
  using assms
  by (auto simp: selectionRow_def correctedRow_def specStreamBounds_def rowLeft_def rowRight_def)

lemma selectionRow_box_or_single:
  assumes "boxSelection t \<or> Y h = Y l"
  shows "selectionRow t h l row
           = correctedRow t (min_SHORT (X h) (X l), max_SHORT (X h) (X l)) row"
  using assms
  by (auto simp: selectionRow_def correctedRow_def rowLeft_def rowRight_def)

lemma plain_terminal_rows:
  "anchorAbsoluteRow (selectingTerminal buf vp box a e off) = sint (Y a) + sint off"
  "endAbsoluteRow (selectingTerminal buf vp box a e off) = sint (Y e) + sint off"
  "selectionActive (selectingTerminal buf vp box a e off)"
  "boxSelection (selectingTerminal buf vp box a e off) = box"
  by (simp_all add: selectingTerminal_def anchorAbsoluteRow_def endAbsoluteRow_def)

subsection \<open>The expansions and single-row selections\<close>

lemma ExpandWideGlyphSelection_Left_eq:
  "ExpandWideGlyphSelection_Left t x y =
     (if CellDbcsAttr (buffer t) \<lparr>X = x, Y = y\<rparr> = Trailing
      then (if fst (DecrementInBounds (mutableViewport t) \<lparr>X = x, Y = y\<rparr>)
            then X (snd (DecrementInBounds (mutableViewport t) \<lparr>X = x, Y = y\<rparr>))
            else X (snd (IncrementInBounds (mutableViewport t)
                          (snd (DecrementInBounds (mutableViewport t) \<lparr>X = x, Y = y\<rparr>)))))
      else x)"
  by (simp add: ExpandWideGlyphSelection_Left_def Let_def IsTrailing_def split: prod.splits)

lemma ExpandWideGlyphSelection_Right_eq:
  "ExpandWideGlyphSelection_Right t x y =
     (if CellDbcsAttr (buffer t) \<lparr>X = x, Y = y\<rparr> = Leading
      then (if fst (IncrementInBounds (mutableViewport t) \<lparr>X = x, Y = y\<rparr>)
            then X (snd (IncrementInBounds (mutableViewport t) \<lparr>X = x, Y = y\<rparr>))
            else X (snd (DecrementInBounds (mutableViewport t)
                          (snd (IncrementInBounds (mutableViewport t) \<lparr>X = x, Y = y\<rparr>)))))
      else x)"
  by (simp add: ExpandWideGlyphSelection_Right_def Let_def IsLeading_def split: prod.splits)

lemma Expand_ignores_boxSelection:
  "ExpandWideGlyphSelection_Left (t\<lparr>boxSelection := box\<rparr>) = ExpandWideGlyphSelection_Left t"
  "ExpandWideGlyphSelection_Right (t\<lparr>boxSelection := box\<rparr>) = ExpandWideGlyphSelection_Right t"
  by (simp_all add: fun_eq_iff ExpandWideGlyphSelection_Left_eq ExpandWideGlyphSelection_Right_eq)

lemma endpoints_ignore_boxSelection:
  "anchorAbsoluteRow (t\<lparr>boxSelection := box\<rparr>) = anchorAbsoluteRow t"
  "endAbsoluteRow (t\<lparr>boxSelection := box\<rparr>) = endAbsoluteRow t"
  "topEndpoint (t\<lparr>boxSelection := box\<rparr>) = topEndpoint t"
  "bottomEndpoint (t\<lparr>boxSelection := box\<rparr>) = bottomEndpoint t"
  by (simp_all add: anchorAbsoluteRow_def endAbsoluteRow_def topEndpoint_def bottomEndpoint_def)

lemma correctedRow_ignores_boxSelection:
  "correctedRow (t\<lparr>boxSelection := box\<rparr>) = correctedRow t"
  by (simp add: fun_eq_iff correctedRow_def Expand_ignores_boxSelection)

lemma Expand_Left_not_trailing:
  "CellDbcsAttr (buffer t) \<lparr>X = x, Y = y\<rparr> \<noteq> Trailing \<Longrightarrow> ExpandWideGlyphSelection_Left t x y = x"
  by (simp add: ExpandWideGlyphSelection_Left_eq)

lemma Expand_Right_not_leading:
  "CellDbcsAttr (buffer t) \<lparr>X = x, Y = y\<rparr> \<noteq> Leading \<Longrightarrow> ExpandWideGlyphSelection_Right t x y = x"
  by (simp add: ExpandWideGlyphSelection_Right_eq)

lemma GetSelectionRects_single_row:
  assumes "selectionActive t" and "anchorAbsoluteRow t = endAbsoluteRow t"
    and "in_SHORT (anchorAbsoluteRow t)" and "anchorAbsoluteRow t < SHORT_MAX"
  shows "GetSelectionRects t
           = Some (Inr [correctedRow t
                          (min_SHORT (X (selectionAnchor t)) (X (endSelectionPosition t)),
                           max_SHORT (X (selectionAnchor t)) (X (endSelectionPosition t)))
                          (word_of_int (anchorAbsoluteRow t))])"
proof -
  let ?row = "word_of_int (anchorAbsoluteRow t) :: SHORT"
  have top: "topEndpoint t = \<lparr>X = X (selectionAnchor t), Y = ?row\<rparr>"
    and bot: "bottomEndpoint t = \<lparr>X = X (endSelectionPosition t), Y = ?row\<rparr>"
    using assms(2) by (simp_all add: topEndpoint_def bottomEndpoint_def)
  have "GetSelectionRects t =
          Some (Inr (map (selectionRow t (topEndpoint t) (bottomEndpoint t))
                       (rowsFromTo (Y (topEndpoint t)) (Y (bottomEndpoint t)))))"
    using assms by (intro GetSelectionRects_rows) simp_all
  also have "\<dots> = Some (Inr [selectionRow t (topEndpoint t) (bottomEndpoint t) ?row])"
    using assms(3) by (simp add: top bot rowsFromTo_single)
  also have "selectionRow t (topEndpoint t) (bottomEndpoint t) ?row
      = correctedRow t (min_SHORT (X (selectionAnchor t)) (X (endSelectionPosition t)),
                        max_SHORT (X (selectionAnchor t)) (X (endSelectionPosition t))) ?row"
    by (subst selectionRow_box_or_single) (simp_all add: top bot)
  finally show ?thesis .
qed

subsection \<open>Order of the two edges\<close>

lemma rowLeft_le_rowRight_cases:
  assumes "boxSelection t \<or> Y h = Y l
           \<or> (0 \<le>s X h \<and> X h \<le>s RightInclusive (buffer t)
              \<and> 0 \<le>s X l \<and> X l \<le>s RightInclusive (buffer t))"
  shows "rowLeft t h l row \<le>s rowRight t h l row"
  using assms min_SHORT_le_max_SHORT [of "X h" "X l"]
  by (auto simp: rowLeft_def rowRight_def word_sle_eq)

lemma endpoint_columns:
  "X (topEndpoint t) = X (selectionAnchor t) \<or> X (topEndpoint t) = X (endSelectionPosition t)"
  "X (bottomEndpoint t) = X (selectionAnchor t) \<or> X (bottomEndpoint t) = X (endSelectionPosition t)"
  by (simp_all add: topEndpoint_def bottomEndpoint_def)

lemma ClampedViewport_expansions:
  assumes "mutableViewport t = ClampedViewport lo hi"
  shows "ExpandWideGlyphSelection_Left t x y =
           (if CellDbcsAttr (buffer t) \<lparr>X = x, Y = y\<rparr> \<noteq> Trailing then x
            else if sint lo \<le> sint x - 1 \<and> sint x - 1 \<le> sint hi then x - 1
            else if sint lo \<le> sint x + 1 \<and> sint x + 1 \<le> sint hi then x + 1
            else x)"
    and "ExpandWideGlyphSelection_Right t x y =
           (if CellDbcsAttr (buffer t) \<lparr>X = x, Y = y\<rparr> \<noteq> Leading then x
            else if sint lo \<le> sint x + 1 \<and> sint x + 1 \<le> sint hi then x + 1
            else if sint lo \<le> sint x - 1 \<and> sint x - 1 \<le> sint hi then x - 1
            else x)"
  by (simp_all add: ExpandWideGlyphSelection_Left_eq ExpandWideGlyphSelection_Right_eq
      assms ClampedViewport_def)

lemma sint_ClampedViewport_Left:
  assumes "mutableViewport t = ClampedViewport lo hi"
  shows "sint (ExpandWideGlyphSelection_Left t x y) =
           (if CellDbcsAttr (buffer t) \<lparr>X = x, Y = y\<rparr> \<noteq> Trailing then sint x
            else if sint lo \<le> sint x - 1 \<and> sint x - 1 \<le> sint hi then sint x - 1
            else if sint lo \<le> sint x + 1 \<and> sint x + 1 \<le> sint hi then sint x + 1
            else sint x)"
proof -
  have p: "sint lo \<le> sint x - 1 \<Longrightarrow> sint (x - 1) = sint x - 1"
    using sint_SHORT_bounds [of lo] by (intro sint_pred_SHORT) simp
  have s: "sint x + 1 \<le> sint hi \<Longrightarrow> sint (x + 1) = sint x + 1"
    using sint_SHORT_bounds [of hi] by (intro sint_succ_SHORT) simp
  show ?thesis using p s by (simp add: ClampedViewport_expansions [OF assms])
qed

lemma sint_ClampedViewport_Right:
  assumes "mutableViewport t = ClampedViewport lo hi"
  shows "sint (ExpandWideGlyphSelection_Right t x y) =
           (if CellDbcsAttr (buffer t) \<lparr>X = x, Y = y\<rparr> \<noteq> Leading then sint x
            else if sint lo \<le> sint x + 1 \<and> sint x + 1 \<le> sint hi then sint x + 1
            else if sint lo \<le> sint x - 1 \<and> sint x - 1 \<le> sint hi then sint x - 1
            else sint x)"
proof -
  have p: "sint lo \<le> sint x - 1 \<Longrightarrow> sint (x - 1) = sint x - 1"
    using sint_SHORT_bounds [of lo] by (intro sint_pred_SHORT) simp
  have s: "sint x + 1 \<le> sint hi \<Longrightarrow> sint (x + 1) = sint x + 1"
    using sint_SHORT_bounds [of hi] by (intro sint_succ_SHORT) simp
  show ?thesis using p s by (simp add: ClampedViewport_expansions [OF assms])
qed

lemma corrected_edges_order:
  assumes vp: "mutableViewport t = ClampedViewport lo hi"
    and le: "l \<le>s r"
  shows "ExpandWideGlyphSelection_Left t l y \<le>s ExpandWideGlyphSelection_Right t r y
           \<longleftrightarrow> \<not> edgesCross (buffer t) lo hi l r y"
proof (cases "r = l")
  case True
  then show ?thesis
    by (cases "CellDbcsAttr (buffer t) \<lparr>X = l, Y = y\<rparr>")
      (auto simp: word_sle_eq sint_ClampedViewport_Left [OF vp] sint_ClampedViewport_Right [OF vp]
        edgesCross_def leftFallsForward_def rightFallsBack_def)
next
  case False
  then have "sint r \<noteq> sint l" by (auto dest: signed_word_eqI)
  with le have lt: "sint l < sint r" by (simp add: word_sle_eq)
  show ?thesis
    using False lt
    by (cases "CellDbcsAttr (buffer t) \<lparr>X = l, Y = y\<rparr>";
        cases "CellDbcsAttr (buffer t) \<lparr>X = r, Y = y\<rparr>")
      (auto simp: word_sle_eq sint_ClampedViewport_Left [OF vp] sint_ClampedViewport_Right [OF vp]
        edgesCross_def leftFallsForward_def rightFallsBack_def)
qed


subsection \<open>Recording an endpoint\<close>

lemma SetEndSelectionPosition_eq:
  "SetEndSelectionPosition t position =
     (if \<not> in_SHORT (scrollOffset t) then Inl NarrowingError
      else if \<not> in_SHORT (sint (Y position) - scrollOffset t) then Inl ArithmeticOverflow
      else if \<not> in_SHORT (ViewStartIndex t) then Inl NarrowingError
      else Inr (t\<lparr>endSelectionPosition :=
                    \<lparr>X = X position, Y = word_of_int (sint (Y position) - scrollOffset t)\<rparr>,
                  endSelectionPosition_YOffset := word_of_int (ViewStartIndex t)\<rparr>))"
  by (cases position)
    (simp add: SetEndSelectionPosition_def narrow_SHORT_def ShortSub_def Let_def sint_in_SHORT)

lemma SetSelectionAnchor_eq:
  "SetSelectionAnchor t position =
     (if \<not> in_SHORT (scrollOffset t) then Inl NarrowingError
      else if \<not> in_SHORT (sint (Y position) - scrollOffset t) then Inl ArithmeticOverflow
      else if \<not> in_SHORT (ViewStartIndex t) then Inl NarrowingError
      else Inr (t\<lparr>selectionActive := True,
                  selectionAnchor :=
                    \<lparr>X = X position, Y = word_of_int (sint (Y position) - scrollOffset t)\<rparr>,
                  selectionAnchor_YOffset := word_of_int (ViewStartIndex t),
                  endSelectionPosition :=
                    \<lparr>X = X position, Y = word_of_int (sint (Y position) - scrollOffset t)\<rparr>,
                  endSelectionPosition_YOffset := word_of_int (ViewStartIndex t)\<rparr>))"
  by (cases position)
    (simp add: SetSelectionAnchor_def SetEndSelectionPosition_eq narrow_SHORT_def ShortSub_def
      Let_def sint_in_SHORT)

lemma sint_sub_in_SHORT:
  assumes "in_SHORT (sint (a :: SHORT) - i)"
  shows "sint (a - word_of_int i) = sint a - i"
proof -
  have "a - word_of_int i = (word_of_int (sint a - i) :: SHORT)" by simp
  then show ?thesis using assms by (simp only: sint_in_SHORT)
qed

subsection \<open>Text extraction and the query that does not return\<close>

lemma RetrieveSelectedTextFromBuffer_eq:
  "RetrieveSelectedTextFromBuffer t trim =
     map_option (map_sum id (\<lambda>rects. concat (GetTextForClipboard (buffer t) (\<not> boxSelection t)
                                                trim rects)))
       (GetSelectionRects t)"
  by (simp add: RetrieveSelectedTextFromBuffer_def split: option.splits sum.splits)

lemma GetTextForClipboard_no_rows: "GetTextForClipboard buf lineSelection trim [] = []"
  by (simp add: GetTextForClipboard_def)

text \<open>A selection begun at viewport row 7 while the view starts at absolute row 32760
  lies on absolute row 32767: the loop counter wraps and the query does not return.\<close>

lemma GetSelectionRects_no_return_example:
  "SetSelectionAnchor (idleTerminal (plainBuffer 9) (ClampedViewport 0 9) 0 32760) \<lparr>X = 0, Y = 7\<rparr>
     = Inr (selectingTerminal (plainBuffer 9) (ClampedViewport 0 9) False
              \<lparr>X = 0, Y = 7\<rparr> \<lparr>X = 0, Y = 7\<rparr> 32760)
   \<and> GetSelectionRects (selectingTerminal (plainBuffer 9) (ClampedViewport 0 9) False
              \<lparr>X = 0, Y = 7\<rparr> \<lparr>X = 0, Y = 7\<rparr> 32760) = None"
proof -
  let ?T = "selectingTerminal (plainBuffer 9) (ClampedViewport 0 9) False
              \<lparr>X = 0, Y = 7\<rparr> \<lparr>X = 0, Y = 7\<rparr> 32760"
  have "GetSelectionRects ?T = None"
    by (rule GetSelectionRects_no_return)
      (simp_all add: plain_terminal_rows in_SHORT_def SHORT_MIN_def SHORT_MAX_def)
  moreover have "SetSelectionAnchor (idleTerminal (plainBuffer 9) (ClampedViewport 0 9) 0 32760)
      \<lparr>X = 0, Y = 7\<rparr> = Inr ?T"
    by (simp add: SetSelectionAnchor_eq idleTerminal_def selectingTerminal_def
        in_SHORT_def SHORT_MIN_def SHORT_MAX_def)
  ultimately show ?thesis by simp
qed

section \<open>The claims\<close>

text \<open>
  C9. For every tracker state, clearing the selection sets the active flag to false and
  zeroes the anchor and the end position, coordinate and row offset alike, while box mode
  and everything else the tracker holds stay as they were; clearing twice gives the same
  state as clearing once.
\<close>

theorem ClearSelection_zeroes_and_idempotent:
  "selectionActive (ClearSelection t) = False
   \<and> selectionAnchor (ClearSelection t) = \<lparr>X = 0, Y = 0\<rparr>
   \<and> endSelectionPosition (ClearSelection t) = \<lparr>X = 0, Y = 0\<rparr>
   \<and> selectionAnchor_YOffset (ClearSelection t) = 0
   \<and> endSelectionPosition_YOffset (ClearSelection t) = 0
   \<and> boxSelection (ClearSelection t) = boxSelection t
   \<and> scrollOffset (ClearSelection t) = scrollOffset t
   \<and> ViewStartIndex (ClearSelection t) = ViewStartIndex t
   \<and> buffer (ClearSelection t) = buffer t
   \<and> mutableViewport (ClearSelection t) = mutableViewport t
   \<and> ClearSelection (ClearSelection t) = ClearSelection t"
  by (simp add: ClearSelection_def)

text \<open>
  C1. The sequence of absolute rows that \<^verbatim>\<open>_GetSelectionRects\<close> returns (an exception or
  a call that does not return included) is determined by the active flag and by the two
  recorded endpoints, each resolved as its recorded row plus its frozen row offset: two
  states that agree on these give the same sequence. In particular it does not change
  when the live scroll offset, the viewport's top row or the viewport itself change after
  the endpoints were recorded.
\<close>

theorem absolute_rows_scroll_independent:
  "(selectionActive t' = selectionActive t
      \<and> anchorAbsoluteRow t' = anchorAbsoluteRow t
      \<and> endAbsoluteRow t' = endAbsoluteRow t
    \<longrightarrow> absoluteRows (GetSelectionRects t') = absoluteRows (GetSelectionRects t))
   \<and> absoluteRows (GetSelectionRects
        (t\<lparr>scrollOffset := so, ViewStartIndex := vs, mutableViewport := vp\<rparr>))
     = absoluteRows (GetSelectionRects t)"
  by (simp add: absoluteRows_GetSelectionRects anchorAbsoluteRow_def endAbsoluteRow_def)

text \<open>Scenario D: the selection of Scenario B, queried again after the scroll offset,
  the view start and the viewport have changed.\<close>

theorem absolute_rows_scroll_independent_witness:
  "selectionActive
      (selectingTerminal (plainBuffer 9) (ClampedViewport 0 9) False
         \<lparr>X = 3, Y = 1\<rparr> \<lparr>X = 2, Y = 3\<rparr> 0
       \<lparr>scrollOffset := 5, ViewStartIndex := 7, mutableViewport := ClampedViewport 0 20\<rparr>)
    = selectionActive
        (selectingTerminal (plainBuffer 9) (ClampedViewport 0 9) False
           \<lparr>X = 3, Y = 1\<rparr> \<lparr>X = 2, Y = 3\<rparr> 0)
   \<and> anchorAbsoluteRow
      (selectingTerminal (plainBuffer 9) (ClampedViewport 0 9) False
         \<lparr>X = 3, Y = 1\<rparr> \<lparr>X = 2, Y = 3\<rparr> 0
       \<lparr>scrollOffset := 5, ViewStartIndex := 7, mutableViewport := ClampedViewport 0 20\<rparr>)
    = anchorAbsoluteRow
        (selectingTerminal (plainBuffer 9) (ClampedViewport 0 9) False
           \<lparr>X = 3, Y = 1\<rparr> \<lparr>X = 2, Y = 3\<rparr> 0)
   \<and> endAbsoluteRow
      (selectingTerminal (plainBuffer 9) (ClampedViewport 0 9) False
         \<lparr>X = 3, Y = 1\<rparr> \<lparr>X = 2, Y = 3\<rparr> 0
       \<lparr>scrollOffset := 5, ViewStartIndex := 7, mutableViewport := ClampedViewport 0 20\<rparr>)
    = endAbsoluteRow
        (selectingTerminal (plainBuffer 9) (ClampedViewport 0 9) False
           \<lparr>X = 3, Y = 1\<rparr> \<lparr>X = 2, Y = 3\<rparr> 0)
   \<and> absoluteRows (GetSelectionRects
        (selectingTerminal (plainBuffer 9) (ClampedViewport 0 9) False
           \<lparr>X = 3, Y = 1\<rparr> \<lparr>X = 2, Y = 3\<rparr> 0
         \<lparr>scrollOffset := 5, ViewStartIndex := 7, mutableViewport := ClampedViewport 0 20\<rparr>))
     = absoluteRows (GetSelectionRects
        (selectingTerminal (plainBuffer 9) (ClampedViewport 0 9) False
           \<lparr>X = 3, Y = 1\<rparr> \<lparr>X = 2, Y = 3\<rparr> 0))
   \<and> absoluteRows (GetSelectionRects
        (selectingTerminal (plainBuffer 9) (ClampedViewport 0 9) False
           \<lparr>X = 3, Y = 1\<rparr> \<lparr>X = 2, Y = 3\<rparr> 0))
     = Some (Inr [1, 2, 3])"
proof -
  let ?T = "selectingTerminal (plainBuffer 9) (ClampedViewport 0 9) False
              \<lparr>X = 3, Y = 1\<rparr> \<lparr>X = 2, Y = 3\<rparr> 0"
  let ?U = "?T\<lparr>scrollOffset := 5, ViewStartIndex := 7, mutableViewport := ClampedViewport 0 20\<rparr>"
  have h: "selectionActive ?U = selectionActive ?T
      \<and> anchorAbsoluteRow ?U = anchorAbsoluteRow ?T
      \<and> endAbsoluteRow ?U = endAbsoluteRow ?T"
    by (simp add: anchorAbsoluteRow_def endAbsoluteRow_def)
  have rows: "rowsFromTo 1 (3 :: SHORT) = [1, 2, 3]"
    by (simp add: rowsFromTo_def upto.simps)
  have v: "absoluteRows (GetSelectionRects ?T) = Some (Inr [1, 2, 3])"
    by (simp add: absoluteRows_GetSelectionRects plain_terminal_rows rows
        in_SHORT_def SHORT_MIN_def SHORT_MAX_def)
  from absolute_rows_scroll_independent [of ?U ?T] h
  have "absoluteRows (GetSelectionRects ?U) = absoluteRows (GetSelectionRects ?T)"
    by blast
  with h v show ?thesis by blast
qed

text \<open>
  C2, amended. For every active selection whose two endpoints resolve without overflow
  (row plus frozen offset within the 16-bit range) and whose bottom absolute row is below
  32767, \<^verbatim>\<open>_GetSelectionRects\<close> returns, and the rows it returns are exactly the absolute
  rows from the smaller to the larger of the two resolved rows: one rectangle for each, in
  ascending order, without gap or duplicate, each with bottom equal to top.
\<close>

theorem rows_cover_interval:
  assumes "selectionActive t"
    and "in_SHORT (anchorAbsoluteRow t)" and "in_SHORT (endAbsoluteRow t)"
    and "max (anchorAbsoluteRow t) (endAbsoluteRow t) < SHORT_MAX"
  shows "\<exists>rects. GetSelectionRects t = Some (Inr rects)
           \<and> map (\<lambda>r. sint (Top r)) rects
               = [min (anchorAbsoluteRow t) (endAbsoluteRow t) ..
                  max (anchorAbsoluteRow t) (endAbsoluteRow t)]
           \<and> map Bottom rects = map Top rects
           \<and> sorted (map (\<lambda>r. sint (Top r)) rects)
           \<and> distinct (map (\<lambda>r. sint (Top r)) rects)"
proof -
  let ?a = "min (anchorAbsoluteRow t) (endAbsoluteRow t)"
  let ?b = "max (anchorAbsoluteRow t) (endAbsoluteRow t)"
  let ?rects = "map (selectionRow t (topEndpoint t) (bottomEndpoint t))
                  (rowsFromTo (Y (topEndpoint t)) (Y (bottomEndpoint t)))"
  have g: "GetSelectionRects t = Some (Inr ?rects)"
    using assms by (rule GetSelectionRects_rows)
  have ab: "in_SHORT ?a" "in_SHORT ?b" using assms(2,3) by (auto simp: min_def max_def)
  have "map (\<lambda>r. sint (Top r)) ?rects = map sint (map Top ?rects)" by (simp add: o_def)
  also have "\<dots> = map sint (rowsFromTo (word_of_int ?a) (word_of_int ?b))"
    by (simp only: map_Top_selectionRow Y_topEndpoint Y_bottomEndpoint)
  also have "\<dots> = [?a .. ?b]" using ab by (rule rowsFromTo_sint)
  finally have tops: "map (\<lambda>r. sint (Top r)) ?rects = [?a .. ?b]" .
  have bt: "map Bottom ?rects = map Top ?rects"
    by (simp only: map_Top_selectionRow map_Bottom_selectionRow)
  show ?thesis
    using g tops bt by (intro exI [of _ ?rects]) (simp only: sorted_upto distinct_upto simp_thms)
qed

theorem rows_cover_interval_witness:
  "selectionActive (selectingTerminal (plainBuffer 9) (ClampedViewport 0 9) False
      \<lparr>X = 3, Y = 1\<rparr> \<lparr>X = 2, Y = 3\<rparr> 0)
   \<and> (\<exists>rects. GetSelectionRects (selectingTerminal (plainBuffer 9) (ClampedViewport 0 9) False
                  \<lparr>X = 3, Y = 1\<rparr> \<lparr>X = 2, Y = 3\<rparr> 0) = Some (Inr rects)
         \<and> map (\<lambda>r. sint (Top r)) rects = [1, 2, 3])"
proof -
  let ?T = "selectingTerminal (plainBuffer 9) (ClampedViewport 0 9) False
              \<lparr>X = 3, Y = 1\<rparr> \<lparr>X = 2, Y = 3\<rparr> 0"
  have a: "anchorAbsoluteRow ?T = 1" and e: "endAbsoluteRow ?T = 3"
    by (simp_all add: selectingTerminal_def anchorAbsoluteRow_def endAbsoluteRow_def)
  have act: "selectionActive ?T" by (simp add: selectingTerminal_def)
  have u: "[1 .. 3 :: int] = [1, 2, 3]" by (simp add: upto.simps)
  from rows_cover_interval [of ?T] act show ?thesis
    by (auto simp: a e u in_SHORT_def SHORT_MIN_def SHORT_MAX_def)
qed

text \<open>
  The claim as stated fails where an endpoint does not resolve: a selection begun at
  viewport row 10 while the view starts at absolute row 32760 is active, and the query
  raises the overflow exception instead of returning rows.
\<close>

theorem rows_overflow_counterexample:
  "SetSelectionAnchor (idleTerminal (plainBuffer 9) (ClampedViewport 0 9) 0 32760) \<lparr>X = 0, Y = 10\<rparr>
     = Inr (selectingTerminal (plainBuffer 9) (ClampedViewport 0 9) False
              \<lparr>X = 0, Y = 10\<rparr> \<lparr>X = 0, Y = 10\<rparr> 32760)
   \<and> selectionActive (selectingTerminal (plainBuffer 9) (ClampedViewport 0 9) False
              \<lparr>X = 0, Y = 10\<rparr> \<lparr>X = 0, Y = 10\<rparr> 32760)
   \<and> GetSelectionRects (selectingTerminal (plainBuffer 9) (ClampedViewport 0 9) False
              \<lparr>X = 0, Y = 10\<rparr> \<lparr>X = 0, Y = 10\<rparr> 32760)
       = Some (Inl ArithmeticOverflow)"
  by (simp add: SetSelectionAnchor_def SetEndSelectionPosition_def idleTerminal_def
      selectingTerminal_def narrow_SHORT_def ShortSub_def ShortAdd_def in_SHORT_def
      SHORT_MIN_def SHORT_MAX_def GetSelectionRects_def)

text \<open>
  C3. For every active selection in stream mode (box mode off) whose anchor and end
  resolve to different absolute rows, the rows that \<^verbatim>\<open>_GetSelectionRects\<close> produces are,
  before wide-glyph correction, bounded as the specification says: the first row (the top
  endpoint's row) from the top endpoint's column to the buffer's rightmost column, the
  last row (the bottom endpoint's row) from column 0 to the bottom endpoint's column, and
  every row between them from column 0 to the rightmost column. The two expansions are
  then applied to these bounds. Rows are produced whenever both endpoints resolve and the
  bottom row is below 32767.
\<close>

theorem stream_multirow_bounds:
  assumes "selectionActive t" and "\<not> boxSelection t"
    and "anchorAbsoluteRow t \<noteq> endAbsoluteRow t"
  shows "(\<forall>rects. GetSelectionRects t = Some (Inr rects) \<longrightarrow>
            rects = map (\<lambda>row. correctedRow t
                             (specStreamBounds (RightInclusive (buffer t))
                                (topEndpoint t) (bottomEndpoint t) row) row)
                      (rowsFromTo (Y (topEndpoint t)) (Y (bottomEndpoint t)))
            \<and> rects \<noteq> []
            \<and> Top (hd rects) = Y (topEndpoint t)
            \<and> Top (last rects) = Y (bottomEndpoint t)
            \<and> Y (topEndpoint t) \<noteq> Y (bottomEndpoint t))
       \<and> (in_SHORT (anchorAbsoluteRow t) \<and> in_SHORT (endAbsoluteRow t)
            \<and> max (anchorAbsoluteRow t) (endAbsoluteRow t) < SHORT_MAX
          \<longrightarrow> (\<exists>rects. GetSelectionRects t = Some (Inr rects)))"
proof (intro conjI allI impI)
  assume "in_SHORT (anchorAbsoluteRow t) \<and> in_SHORT (endAbsoluteRow t)
            \<and> max (anchorAbsoluteRow t) (endAbsoluteRow t) < SHORT_MAX"
  then show "\<exists>rects. GetSelectionRects t = Some (Inr rects)"
    using assms(1) by (simp add: GetSelectionRects_rows)
next
  fix rects
  assume g: "GetSelectionRects t = Some (Inr rects)"
  let ?rows = "rowsFromTo (Y (topEndpoint t)) (Y (bottomEndpoint t))"
  from g assms(1)
  have ia: "in_SHORT (anchorAbsoluteRow t)" and ie: "in_SHORT (endAbsoluteRow t)"
    and r: "rects = map (selectionRow t (topEndpoint t) (bottomEndpoint t)) ?rows"
    by (simp_all add: GetSelectionRects_Inr_iff)
  show d: "Y (topEndpoint t) \<noteq> Y (bottomEndpoint t)"
    using ia ie assms(3) by (rule endpoints_differ)
  show eq: "rects = map (\<lambda>row. correctedRow t
                       (specStreamBounds (RightInclusive (buffer t))
                          (topEndpoint t) (bottomEndpoint t) row) row) ?rows"
    using assms(2) d by (simp add: r selectionRow_stream)
  have im: "in_SHORT (min (anchorAbsoluteRow t) (endAbsoluteRow t))"
    "in_SHORT (max (anchorAbsoluteRow t) (endAbsoluteRow t))"
    using ia ie by (auto simp: min_def max_def)
  have ne: "?rows \<noteq> [] \<and> hd ?rows = Y (topEndpoint t) \<and> last ?rows = Y (bottomEndpoint t)"
    using rowsFromTo_nonempty [OF im] by (simp add: Y_topEndpoint Y_bottomEndpoint)
  then show "rects \<noteq> []" by (simp add: r)
  have "map Top rects = ?rows" by (simp only: r map_Top_selectionRow)
  moreover from ne have "rects \<noteq> []" by (simp add: r)
  ultimately show "Top (hd rects) = Y (topEndpoint t)" "Top (last rects) = Y (bottomEndpoint t)"
    using ne by (metis hd_map, metis last_map)
qed

text \<open>Scenario B: anchor at row 1, column 3, end at row 3, column 2, width 10.\<close>

theorem stream_multirow_bounds_witness:
  "selectionActive (selectingTerminal (plainBuffer 9) (ClampedViewport 0 9) False
      \<lparr>X = 3, Y = 1\<rparr> \<lparr>X = 2, Y = 3\<rparr> 0)
   \<and> \<not> boxSelection (selectingTerminal (plainBuffer 9) (ClampedViewport 0 9) False
      \<lparr>X = 3, Y = 1\<rparr> \<lparr>X = 2, Y = 3\<rparr> 0)
   \<and> GetSelectionRects (selectingTerminal (plainBuffer 9) (ClampedViewport 0 9) False
        \<lparr>X = 3, Y = 1\<rparr> \<lparr>X = 2, Y = 3\<rparr> 0)
     = Some (Inr [\<lparr>Left = 3, Top = 1, Right = 9, Bottom = 1\<rparr>,
                  \<lparr>Left = 0, Top = 2, Right = 9, Bottom = 2\<rparr>,
                  \<lparr>Left = 0, Top = 3, Right = 2, Bottom = 3\<rparr>])"
proof -
  let ?T = "selectingTerminal (plainBuffer 9) (ClampedViewport 0 9) False
              \<lparr>X = 3, Y = 1\<rparr> \<lparr>X = 2, Y = 3\<rparr> 0"
  have h: "selectionActive ?T" "\<not> boxSelection ?T" "anchorAbsoluteRow ?T \<noteq> endAbsoluteRow ?T"
    by (simp_all add: plain_terminal_rows)
  have i: "in_SHORT (anchorAbsoluteRow ?T) \<and> in_SHORT (endAbsoluteRow ?T)
            \<and> max (anchorAbsoluteRow ?T) (endAbsoluteRow ?T) < SHORT_MAX"
    by (simp add: plain_terminal_rows in_SHORT_def SHORT_MIN_def SHORT_MAX_def)
  from stream_multirow_bounds [OF h] i obtain rects where
    g: "GetSelectionRects ?T = Some (Inr rects)"
    and r: "rects = map (\<lambda>row. correctedRow ?T
                             (specStreamBounds (RightInclusive (buffer ?T))
                                (topEndpoint ?T) (bottomEndpoint ?T) row) row)
                      (rowsFromTo (Y (topEndpoint ?T)) (Y (bottomEndpoint ?T)))"
    by blast
  have t: "topEndpoint ?T = \<lparr>X = 3, Y = 1\<rparr>" "bottomEndpoint ?T = \<lparr>X = 2, Y = 3\<rparr>"
    by (simp_all add: topEndpoint_def bottomEndpoint_def plain_terminal_rows)
      (simp_all add: selectingTerminal_def)
  have rows: "rowsFromTo 1 (3 :: SHORT) = [1, 2, 3]"
    by (simp add: rowsFromTo_def upto.simps)
  have "rects = [\<lparr>Left = 3, Top = 1, Right = 9, Bottom = 1\<rparr>,
                  \<lparr>Left = 0, Top = 2, Right = 9, Bottom = 2\<rparr>,
                  \<lparr>Left = 0, Top = 3, Right = 2, Bottom = 3\<rparr>]"
    unfolding r t by (simp add: rows correctedRow_def specStreamBounds_def
        ExpandWideGlyphSelection_Left_def ExpandWideGlyphSelection_Right_def
        selectingTerminal_def plainBuffer_def IsTrailing_def IsLeading_def)
  with g h show ?thesis by simp
qed

text \<open>
  C5, amended. For every active selection whose anchor and end resolve to the same
  absolute row (within the 16-bit range and below 32767), \<^verbatim>\<open>_GetSelectionRects\<close> produces
  the same single row whether box mode is on or off: the row whose bounds before
  wide-glyph correction are left = min(anchor.X, end.X) and right = max(anchor.X, end.X),
  each edge then passed through its expansion. The produced row has exactly these bounds
  when the left cell is not a trailing half and the right cell is not a leading half.
\<close>

theorem single_row_same_in_both_modes:
  assumes "selectionActive t" and "anchorAbsoluteRow t = endAbsoluteRow t"
    and "in_SHORT (anchorAbsoluteRow t)" and "anchorAbsoluteRow t < SHORT_MAX"
  shows "GetSelectionRects (t\<lparr>boxSelection := box\<rparr>)
           = Some (Inr [correctedRow t
                          (min_SHORT (X (selectionAnchor t)) (X (endSelectionPosition t)),
                           max_SHORT (X (selectionAnchor t)) (X (endSelectionPosition t)))
                          (word_of_int (anchorAbsoluteRow t))])
         \<and> (CellDbcsAttr (buffer t)
              \<lparr>X = min_SHORT (X (selectionAnchor t)) (X (endSelectionPosition t)),
               Y = word_of_int (anchorAbsoluteRow t)\<rparr> \<noteq> Trailing
            \<and> CellDbcsAttr (buffer t)
              \<lparr>X = max_SHORT (X (selectionAnchor t)) (X (endSelectionPosition t)),
               Y = word_of_int (anchorAbsoluteRow t)\<rparr> \<noteq> Leading
            \<longrightarrow> GetSelectionRects (t\<lparr>boxSelection := box\<rparr>)
                  = Some (Inr [\<lparr>Left = min_SHORT (X (selectionAnchor t)) (X (endSelectionPosition t)),
                                Top = word_of_int (anchorAbsoluteRow t),
                                Right = max_SHORT (X (selectionAnchor t)) (X (endSelectionPosition t)),
                                Bottom = word_of_int (anchorAbsoluteRow t)\<rparr>]))"
proof -
  let ?t = "t\<lparr>boxSelection := box\<rparr>"
  have "GetSelectionRects ?t
           = Some (Inr [correctedRow ?t
                          (min_SHORT (X (selectionAnchor ?t)) (X (endSelectionPosition ?t)),
                           max_SHORT (X (selectionAnchor ?t)) (X (endSelectionPosition ?t)))
                          (word_of_int (anchorAbsoluteRow ?t))])"
    using assms by (intro GetSelectionRects_single_row) (simp_all add: endpoints_ignore_boxSelection)
  then have g: "GetSelectionRects ?t
           = Some (Inr [correctedRow t
                          (min_SHORT (X (selectionAnchor t)) (X (endSelectionPosition t)),
                           max_SHORT (X (selectionAnchor t)) (X (endSelectionPosition t)))
                          (word_of_int (anchorAbsoluteRow t))])"
    by (simp add: correctedRow_ignores_boxSelection endpoints_ignore_boxSelection)
  show ?thesis
    using g by (auto simp: correctedRow_def Expand_Left_not_trailing Expand_Right_not_leading)
qed

text \<open>Scenario A: anchor at row 2, column 5, end at row 2, column 1.\<close>

theorem single_row_same_in_both_modes_witness:
  "selectionActive (selectingTerminal (plainBuffer 9) (ClampedViewport 0 9) False
      \<lparr>X = 5, Y = 2\<rparr> \<lparr>X = 1, Y = 2\<rparr> 0)
   \<and> GetSelectionRects (selectingTerminal (plainBuffer 9) (ClampedViewport 0 9) False
        \<lparr>X = 5, Y = 2\<rparr> \<lparr>X = 1, Y = 2\<rparr> 0 \<lparr>boxSelection := True\<rparr>)
     = Some (Inr [\<lparr>Left = 1, Top = 2, Right = 5, Bottom = 2\<rparr>])
   \<and> GetSelectionRects (selectingTerminal (plainBuffer 9) (ClampedViewport 0 9) False
        \<lparr>X = 5, Y = 2\<rparr> \<lparr>X = 1, Y = 2\<rparr> 0 \<lparr>boxSelection := False\<rparr>)
     = Some (Inr [\<lparr>Left = 1, Top = 2, Right = 5, Bottom = 2\<rparr>])"
proof -
  let ?T = "selectingTerminal (plainBuffer 9) (ClampedViewport 0 9) False
              \<lparr>X = 5, Y = 2\<rparr> \<lparr>X = 1, Y = 2\<rparr> 0"
  have h: "selectionActive ?T" "anchorAbsoluteRow ?T = endAbsoluteRow ?T"
    "in_SHORT (anchorAbsoluteRow ?T)" "anchorAbsoluteRow ?T < SHORT_MAX"
    by (simp_all add: plain_terminal_rows in_SHORT_def SHORT_MIN_def SHORT_MAX_def)
  have c: "CellDbcsAttr (buffer ?T) = (\<lambda>pos. Single)"
    and x: "X (selectionAnchor ?T) = 5" "X (endSelectionPosition ?T) = 1"
    and a: "anchorAbsoluteRow ?T = 2"
    by (simp_all add: selectingTerminal_def plainBuffer_def anchorAbsoluteRow_def)
  show ?thesis
    using single_row_same_in_both_modes [OF h, of True, THEN conjunct2]
      single_row_same_in_both_modes [OF h, of False, THEN conjunct2] h(1)
    by (simp add: c x a min_SHORT_def max_SHORT_def word_sless_alt)
qed

text \<open>
  The claim as stated fails on a wide glyph: with a glyph in columns 0 and 1 of row 0 and
  a selection of the single cell in column 1, the produced row starts at column 0, not at
  min(anchor.X, end.X) = 1.
\<close>

theorem single_row_wide_glyph_counterexample:
  "selectionActive (selectingTerminal (wideGlyphBuffer 9 0 0) (ClampedViewport 0 9) False
      \<lparr>X = 1, Y = 0\<rparr> \<lparr>X = 1, Y = 0\<rparr> 0)
   \<and> anchorAbsoluteRow (selectingTerminal (wideGlyphBuffer 9 0 0) (ClampedViewport 0 9) False
        \<lparr>X = 1, Y = 0\<rparr> \<lparr>X = 1, Y = 0\<rparr> 0)
     = endAbsoluteRow (selectingTerminal (wideGlyphBuffer 9 0 0) (ClampedViewport 0 9) False
        \<lparr>X = 1, Y = 0\<rparr> \<lparr>X = 1, Y = 0\<rparr> 0)
   \<and> min_SHORT 1 1 = 1
   \<and> GetSelectionRects (selectingTerminal (wideGlyphBuffer 9 0 0) (ClampedViewport 0 9) False
        \<lparr>X = 1, Y = 0\<rparr> \<lparr>X = 1, Y = 0\<rparr> 0)
     = Some (Inr [\<lparr>Left = 0, Top = 0, Right = 1, Bottom = 0\<rparr>])"
proof -
  let ?T = "selectingTerminal (wideGlyphBuffer 9 0 0) (ClampedViewport 0 9) False
              \<lparr>X = 1, Y = 0\<rparr> \<lparr>X = 1, Y = 0\<rparr> 0"
  have h: "selectionActive ?T" "anchorAbsoluteRow ?T = endAbsoluteRow ?T"
    "in_SHORT (anchorAbsoluteRow ?T)" "anchorAbsoluteRow ?T < SHORT_MAX"
    by (simp_all add: plain_terminal_rows in_SHORT_def SHORT_MIN_def SHORT_MAX_def)
  have a: "anchorAbsoluteRow ?T = 0" by (simp add: plain_terminal_rows)
  have "GetSelectionRects ?T = Some (Inr [\<lparr>Left = 0, Top = 0, Right = 1, Bottom = 0\<rparr>])"
    unfolding GetSelectionRects_single_row [OF h] a
    by (simp add: correctedRow_def ExpandWideGlyphSelection_Left_eq
        ExpandWideGlyphSelection_Right_eq selectingTerminal_def wideGlyphBuffer_def
        ClampedViewport_def min_SHORT_def max_SHORT_def word_sless_alt)
  then show ?thesis using h by (simp add: min_SHORT_def word_sless_alt)
qed

text \<open>
  C4, amended. Take a row that \<^verbatim>\<open>_GetSelectionRects\<close> produces under the bounds-clamped
  viewport, for a selection in box mode, or on a single row, or whose two recorded
  endpoint columns lie between 0 and the buffer's rightmost column. Then left \<open>\<le>\<close> right
  holds for the row unless a fallback of the wide-glyph correction makes its edges cross,
  and the edges cross on exactly these rows: a one-column row whose cell is a trailing
  half that the decrement cannot step back from, so that the left edge is moved forward;
  a one-column row whose cell is a leading half that the increment cannot step forward
  from, so that the right edge is moved back; and a two-column row on which both happen.
  The condition is on the two edge cells of the row itself; every other fallback, and
  every wide glyph elsewhere, leaves left \<open>\<le>\<close> right.
\<close>

theorem produced_rows_left_le_right:
  assumes "GetSelectionRects t = Some (Inr rects)" and "r \<in> set rects"
    and "mutableViewport t = ClampedViewport lo hi"
    and "boxSelection t \<or> anchorAbsoluteRow t = endAbsoluteRow t
         \<or> (0 \<le>s X (selectionAnchor t) \<and> X (selectionAnchor t) \<le>s RightInclusive (buffer t)
            \<and> 0 \<le>s X (endSelectionPosition t)
            \<and> X (endSelectionPosition t) \<le>s RightInclusive (buffer t))"
  shows "Left r \<le>s Right r
           \<longleftrightarrow> \<not> edgesCross (buffer t) lo hi
                   (rowLeft t (topEndpoint t) (bottomEndpoint t) (Top r))
                   (rowRight t (topEndpoint t) (bottomEndpoint t) (Top r))
                   (Top r)"
proof -
  let ?h = "topEndpoint t" and ?l = "bottomEndpoint t"
  from assms(1,2) obtain row where r: "r = selectionRow t ?h ?l row"
    by (auto simp: GetSelectionRects_Inr_iff split: if_splits)
  have top: "Top r = row" by (simp add: r selectionRow_def)
  have pre: "boxSelection t \<or> Y ?h = Y ?l
           \<or> (0 \<le>s X ?h \<and> X ?h \<le>s RightInclusive (buffer t)
              \<and> 0 \<le>s X ?l \<and> X ?l \<le>s RightInclusive (buffer t))"
  proof -
    consider "boxSelection t" | "anchorAbsoluteRow t = endAbsoluteRow t"
      | "0 \<le>s X (selectionAnchor t) \<and> X (selectionAnchor t) \<le>s RightInclusive (buffer t)
            \<and> 0 \<le>s X (endSelectionPosition t)
            \<and> X (endSelectionPosition t) \<le>s RightInclusive (buffer t)"
      using assms(4) by blast
    then show ?thesis
    proof cases
      case 1
      then show ?thesis by simp
    next
      case 2
      then show ?thesis by (simp add: endpoints_agree)
    next
      case 3
      then show ?thesis
        using endpoint_columns(1) [of t] endpoint_columns(2) [of t] by auto
    qed
  qed
  have le: "rowLeft t ?h ?l row \<le>s rowRight t ?h ?l row"
    using pre by (rule rowLeft_le_rowRight_cases)
  show ?thesis
    unfolding top using corrected_edges_order [OF assms(3) le, of row]
    by (simp add: r selectionRow_def)
qed

text \<open>A fallback that does not cross: a selection of columns 0 to 5 of row 0, whose
  first cell is a trailing half; the left edge moves forward to column 1.\<close>

theorem produced_rows_left_le_right_witness:
  "GetSelectionRects (selectingTerminal (trailingOnlyBuffer 9 0 0) (ClampedViewport 0 9) False
      \<lparr>X = 0, Y = 0\<rparr> \<lparr>X = 5, Y = 0\<rparr> 0)
     = Some (Inr [\<lparr>Left = 1, Top = 0, Right = 5, Bottom = 0\<rparr>])
   \<and> leftFallsForward (trailingOnlyBuffer 9 0 0) 0 9 0 0
   \<and> \<not> edgesCross (trailingOnlyBuffer 9 0 0) 0 9 0 5 0
   \<and> Left \<lparr>Left = 1, Top = 0, Right = 5, Bottom = 0\<rparr>
       \<le>s Right \<lparr>Left = 1, Top = 0, Right = 5, Bottom = (0 :: SHORT)\<rparr>"
proof -
  let ?T = "selectingTerminal (trailingOnlyBuffer 9 0 0) (ClampedViewport 0 9) False
              \<lparr>X = 0, Y = 0\<rparr> \<lparr>X = 5, Y = 0\<rparr> 0"
  let ?r = "\<lparr>Left = 1, Top = 0, Right = 5, Bottom = (0 :: SHORT)\<rparr>"
  have h: "selectionActive ?T" "anchorAbsoluteRow ?T = endAbsoluteRow ?T"
    "in_SHORT (anchorAbsoluteRow ?T)" "anchorAbsoluteRow ?T < SHORT_MAX"
    by (simp_all add: plain_terminal_rows in_SHORT_def SHORT_MIN_def SHORT_MAX_def)
  have a: "anchorAbsoluteRow ?T = 0" by (simp add: plain_terminal_rows)
  have vp: "mutableViewport ?T = ClampedViewport 0 9" by (simp add: selectingTerminal_def)
  have buf: "buffer ?T = trailingOnlyBuffer 9 0 0" by (simp add: selectingTerminal_def)
  have g: "GetSelectionRects ?T = Some (Inr [?r])"
    unfolding GetSelectionRects_single_row [OF h] a
    by (simp add: correctedRow_def ExpandWideGlyphSelection_Left_eq
        ExpandWideGlyphSelection_Right_eq selectingTerminal_def trailingOnlyBuffer_def
        ClampedViewport_def min_SHORT_def max_SHORT_def word_sless_alt)
  have m: "?r \<in> set [?r]" by simp
  have d: "boxSelection ?T \<or> anchorAbsoluteRow ?T = endAbsoluteRow ?T
         \<or> (0 \<le>s X (selectionAnchor ?T) \<and> X (selectionAnchor ?T) \<le>s RightInclusive (buffer ?T)
            \<and> 0 \<le>s X (endSelectionPosition ?T)
            \<and> X (endSelectionPosition ?T) \<le>s RightInclusive (buffer ?T))"
    using h(2) by simp
  have t: "topEndpoint ?T = \<lparr>X = 0, Y = 0\<rparr>" "bottomEndpoint ?T = \<lparr>X = 5, Y = 0\<rparr>"
    by (simp_all add: topEndpoint_def bottomEndpoint_def plain_terminal_rows)
      (simp_all add: selectingTerminal_def)
  have b: "rowLeft ?T (topEndpoint ?T) (bottomEndpoint ?T) 0 = 0"
    "rowRight ?T (topEndpoint ?T) (bottomEndpoint ?T) 0 = 5"
    unfolding t by (simp_all add: rowLeft_def rowRight_def min_SHORT_def max_SHORT_def word_sless_alt)
  have f: "leftFallsForward (trailingOnlyBuffer 9 0 0) 0 9 0 0"
    by (simp add: leftFallsForward_def trailingOnlyBuffer_def)
  have n: "\<not> edgesCross (trailingOnlyBuffer 9 0 0) 0 9 0 5 0"
    by (simp add: edgesCross_def leftFallsForward_def rightFallsBack_def trailingOnlyBuffer_def)
  have tp: "Top ?r = 0" by simp
  from produced_rows_left_le_right [OF g m vp d] n
  have "Left ?r \<le>s Right ?r" unfolding tp b buf by blast
  with g f n show ?thesis by blast
qed

text \<open>
  The claim as stated fails where a correction falls back: when the single selected cell,
  in column 0 of row 0, is a trailing half, the decrement fails at the viewport's first
  column, the left edge is moved forward to column 1, and the right edge stays at
  column 0.
\<close>

theorem left_exceeds_right_counterexample:
  "selectionActive (selectingTerminal (trailingOnlyBuffer 9 0 0) (ClampedViewport 0 9) False
      \<lparr>X = 0, Y = 0\<rparr> \<lparr>X = 0, Y = 0\<rparr> 0)
   \<and> GetSelectionRects (selectingTerminal (trailingOnlyBuffer 9 0 0) (ClampedViewport 0 9) False
        \<lparr>X = 0, Y = 0\<rparr> \<lparr>X = 0, Y = 0\<rparr> 0)
     = Some (Inr [\<lparr>Left = 1, Top = 0, Right = 0, Bottom = 0\<rparr>])
   \<and> \<not> Left \<lparr>Left = 1, Top = 0, Right = 0, Bottom = 0\<rparr>
         \<le>s Right \<lparr>Left = 1, Top = 0, Right = 0, Bottom = (0 :: SHORT)\<rparr>"
proof -
  let ?T = "selectingTerminal (trailingOnlyBuffer 9 0 0) (ClampedViewport 0 9) False
              \<lparr>X = 0, Y = 0\<rparr> \<lparr>X = 0, Y = 0\<rparr> 0"
  have h: "selectionActive ?T" "anchorAbsoluteRow ?T = endAbsoluteRow ?T"
    "in_SHORT (anchorAbsoluteRow ?T)" "anchorAbsoluteRow ?T < SHORT_MAX"
    by (simp_all add: plain_terminal_rows in_SHORT_def SHORT_MIN_def SHORT_MAX_def)
  have a: "anchorAbsoluteRow ?T = 0" by (simp add: plain_terminal_rows)
  have vp: "mutableViewport ?T = ClampedViewport 0 9" by (simp add: selectingTerminal_def)
  have "GetSelectionRects ?T = Some (Inr [\<lparr>Left = 1, Top = 0, Right = 0, Bottom = 0\<rparr>])"
    unfolding GetSelectionRects_single_row [OF h] a
    by (simp add: correctedRow_def ExpandWideGlyphSelection_Left_eq
        ExpandWideGlyphSelection_Right_eq selectingTerminal_def trailingOnlyBuffer_def
        ClampedViewport_def min_SHORT_def max_SHORT_def word_sless_alt)
  then show ?thesis using h by (simp add: word_sle_eq)
qed



text \<open>
  C7, amended. A call of \<^verbatim>\<open>SetSelectionAnchor\<close> or \<^verbatim>\<open>SetEndSelectionPosition\<close> in which
  the position's row minus the scroll offset leaves the 16-bit range fails, and the
  failure reaches the caller as the result of the call: with the arithmetic-overflow
  exception when the scroll offset itself fits in 16 bits, and with the narrowing error
  of \<^verbatim>\<open>gsl::narrow\<close> when it does not. The adjusted row is never wrapped: whenever a call
  succeeds, the recorded row is exactly the position's row minus the scroll offset.
\<close>

theorem row_adjustment_overflow_fails:
  "(in_SHORT (scrollOffset t) \<and> \<not> in_SHORT (sint (Y position) - scrollOffset t)
      \<longrightarrow> SetSelectionAnchor t position = Inl ArithmeticOverflow
          \<and> SetEndSelectionPosition t position = Inl ArithmeticOverflow)
   \<and> (\<not> in_SHORT (scrollOffset t)
      \<longrightarrow> SetSelectionAnchor t position = Inl NarrowingError
          \<and> SetEndSelectionPosition t position = Inl NarrowingError)
   \<and> (\<forall>t'. SetSelectionAnchor t position = Inr t'
      \<longrightarrow> sint (Y (selectionAnchor t')) = sint (Y position) - scrollOffset t
          \<and> sint (Y (endSelectionPosition t')) = sint (Y position) - scrollOffset t)
   \<and> (\<forall>t'. SetEndSelectionPosition t position = Inr t'
      \<longrightarrow> sint (Y (endSelectionPosition t')) = sint (Y position) - scrollOffset t)"
  by (auto simp: SetSelectionAnchor_eq SetEndSelectionPosition_eq sint_sub_in_SHORT
      split: if_splits)

text \<open>Row -32768 with scroll offset 1 underflows; row 5 with scroll offset 1 is
  recorded as row 4.\<close>

theorem row_adjustment_overflow_fails_witness:
  "in_SHORT (scrollOffset (idleTerminal (plainBuffer 9) (ClampedViewport 0 9) 1 0))
   \<and> \<not> in_SHORT (sint (Y \<lparr>X = 0, Y = - 32768\<rparr>)
        - scrollOffset (idleTerminal (plainBuffer 9) (ClampedViewport 0 9) 1 0))
   \<and> SetSelectionAnchor (idleTerminal (plainBuffer 9) (ClampedViewport 0 9) 1 0)
        \<lparr>X = 0, Y = - 32768\<rparr> = Inl ArithmeticOverflow
   \<and> SetEndSelectionPosition (idleTerminal (plainBuffer 9) (ClampedViewport 0 9) 1 0)
        \<lparr>X = 0, Y = - 32768\<rparr> = Inl ArithmeticOverflow
   \<and> (\<exists>t'. SetSelectionAnchor (idleTerminal (plainBuffer 9) (ClampedViewport 0 9) 1 0)
          \<lparr>X = 0, Y = 5\<rparr> = Inr t' \<and> sint (Y (selectionAnchor t')) = 4)"
proof -
  let ?T = "idleTerminal (plainBuffer 9) (ClampedViewport 0 9) 1 0"
  have s: "scrollOffset ?T = 1" "ViewStartIndex ?T = 0" by (simp_all add: idleTerminal_def)
  have h: "in_SHORT (scrollOffset ?T) \<and> \<not> in_SHORT (sint (Y \<lparr>X = 0, Y = - 32768\<rparr>) - scrollOffset ?T)"
    by (simp add: s in_SHORT_def SHORT_MIN_def SHORT_MAX_def)
  have ok: "\<exists>t'. SetSelectionAnchor ?T \<lparr>X = 0, Y = 5\<rparr> = Inr t'"
    by (simp add: SetSelectionAnchor_eq s in_SHORT_def SHORT_MIN_def SHORT_MAX_def)
  show ?thesis
    using row_adjustment_overflow_fails [of ?T "\<lparr>X = 0, Y = - 32768\<rparr>"]
      row_adjustment_overflow_fails [of ?T "\<lparr>X = 0, Y = 5\<rparr>"] h ok
    by (auto simp: s)
qed

text \<open>
  The claim as stated fails where the scroll offset does not fit in 16 bits: with scroll
  offset 40000 and row 0 the subtraction underflows, and the call fails in
  \<^verbatim>\<open>gsl::narrow\<close>, before \<^verbatim>\<open>ShortSub\<close> is reached, with the narrowing error and not
  with the arithmetic overflow.
\<close>

theorem narrowing_error_counterexample:
  "\<not> in_SHORT (sint (Y \<lparr>X = 0, Y = 0\<rparr>)
        - scrollOffset (idleTerminal (plainBuffer 9) (ClampedViewport 0 9) 40000 0))
   \<and> SetSelectionAnchor (idleTerminal (plainBuffer 9) (ClampedViewport 0 9) 40000 0)
        \<lparr>X = 0, Y = 0\<rparr> = Inl NarrowingError
   \<and> SetEndSelectionPosition (idleTerminal (plainBuffer 9) (ClampedViewport 0 9) 40000 0)
        \<lparr>X = 0, Y = 0\<rparr> = Inl NarrowingError
   \<and> NarrowingError \<noteq> ArithmeticOverflow"
  by (simp add: SetSelectionAnchor_def SetEndSelectionPosition_def idleTerminal_def
      narrow_SHORT_def in_SHORT_def SHORT_MIN_def SHORT_MAX_def)

text \<open>
  C10. \<^verbatim>\<open>SetEndSelectionPosition\<close> does not look at the active flag. Called while no
  selection is active it does exactly what it does while one is active, failures
  included, except that the flag stays false: it returns whenever the scroll offset, the
  adjusted row and the view start fit in 16 bits, and then it has recorded the column,
  the row minus the scroll offset and the view start as frozen row offset, has left the
  anchor and box mode alone, has not set the active flag, and a following
  \<^verbatim>\<open>_GetSelectionRects\<close> returns the empty sequence.
\<close>

theorem extend_while_inactive:
  assumes "\<not> selectionActive t"
  shows "SetEndSelectionPosition t position
           = map_sum id (\<lambda>u. u\<lparr>selectionActive := False\<rparr>)
               (SetEndSelectionPosition (t\<lparr>selectionActive := True\<rparr>) position)
         \<and> (in_SHORT (scrollOffset t) \<and> in_SHORT (sint (Y position) - scrollOffset t)
              \<and> in_SHORT (ViewStartIndex t)
            \<longrightarrow> (\<exists>t'. SetEndSelectionPosition t position = Inr t'))
         \<and> (\<forall>t'. SetEndSelectionPosition t position = Inr t' \<longrightarrow>
               \<not> selectionActive t'
               \<and> X (endSelectionPosition t') = X position
               \<and> sint (Y (endSelectionPosition t')) = sint (Y position) - scrollOffset t
               \<and> sint (endSelectionPosition_YOffset t') = ViewStartIndex t
               \<and> selectionAnchor t' = selectionAnchor t
               \<and> selectionAnchor_YOffset t' = selectionAnchor_YOffset t
               \<and> boxSelection t' = boxSelection t
               \<and> GetSelectionRects t' = Some (Inr []))"
proof (intro conjI allI impI)
  show "SetEndSelectionPosition t position
           = map_sum id (\<lambda>u. u\<lparr>selectionActive := False\<rparr>)
               (SetEndSelectionPosition (t\<lparr>selectionActive := True\<rparr>) position)"
    using assms by (cases t) (simp add: SetEndSelectionPosition_eq)
next
  assume "in_SHORT (scrollOffset t) \<and> in_SHORT (sint (Y position) - scrollOffset t)
              \<and> in_SHORT (ViewStartIndex t)"
  then show "\<exists>t'. SetEndSelectionPosition t position = Inr t'"
    by (simp add: SetEndSelectionPosition_eq)
next
  fix t'
  assume r: "SetEndSelectionPosition t position = Inr t'"
  then have i: "in_SHORT (scrollOffset t)" "in_SHORT (sint (Y position) - scrollOffset t)"
    "in_SHORT (ViewStartIndex t)"
    and t': "t' = t\<lparr>endSelectionPosition :=
                    \<lparr>X = X position, Y = word_of_int (sint (Y position) - scrollOffset t)\<rparr>,
                  endSelectionPosition_YOffset := word_of_int (ViewStartIndex t)\<rparr>"
    by (auto simp: SetEndSelectionPosition_eq split: if_splits)
  show "\<not> selectionActive t'" using assms by (simp add: t')
  then show "GetSelectionRects t' = Some (Inr [])" by (rule GetSelectionRects_inactive)
  show "X (endSelectionPosition t') = X position" by (simp add: t')
  show "sint (Y (endSelectionPosition t')) = sint (Y position) - scrollOffset t"
    using i(2) by (simp add: t' sint_sub_in_SHORT)
  show "sint (endSelectionPosition_YOffset t') = ViewStartIndex t"
    using i(3) by (simp add: t' sint_in_SHORT)
  show "selectionAnchor t' = selectionAnchor t" by (simp add: t')
  show "selectionAnchor_YOffset t' = selectionAnchor_YOffset t" by (simp add: t')
  show "boxSelection t' = boxSelection t" by (simp add: t')
qed

text \<open>Extending to row 5, column 4 with scroll offset 2 and view start 7, with no
  selection active.\<close>

theorem extend_while_inactive_witness:
  "\<not> selectionActive (idleTerminal (plainBuffer 9) (ClampedViewport 0 9) 2 7)
   \<and> (\<exists>t'. SetEndSelectionPosition (idleTerminal (plainBuffer 9) (ClampedViewport 0 9) 2 7)
              \<lparr>X = 4, Y = 5\<rparr> = Inr t'
         \<and> \<not> selectionActive t'
         \<and> X (endSelectionPosition t') = 4
         \<and> sint (Y (endSelectionPosition t')) = 3
         \<and> sint (endSelectionPosition_YOffset t') = 7
         \<and> GetSelectionRects t' = Some (Inr []))"
proof -
  let ?T = "idleTerminal (plainBuffer 9) (ClampedViewport 0 9) 2 7"
  have h: "\<not> selectionActive ?T" by (simp add: idleTerminal_def)
  have s: "scrollOffset ?T = 2" "ViewStartIndex ?T = 7" by (simp_all add: idleTerminal_def)
  have i: "in_SHORT (scrollOffset ?T) \<and> in_SHORT (sint (Y \<lparr>X = 4, Y = 5\<rparr>) - scrollOffset ?T)
              \<and> in_SHORT (ViewStartIndex ?T)"
    by (simp add: s in_SHORT_def SHORT_MIN_def SHORT_MAX_def)
  from extend_while_inactive [OF h, of "\<lparr>X = 4, Y = 5\<rparr>"] i
  obtain t' where r: "SetEndSelectionPosition ?T \<lparr>X = 4, Y = 5\<rparr> = Inr t'" by blast
  with extend_while_inactive [OF h, of "\<lparr>X = 4, Y = 5\<rparr>"]
  have "\<not> selectionActive t'
         \<and> X (endSelectionPosition t') = 4
         \<and> sint (Y (endSelectionPosition t')) = 3
         \<and> sint (endSelectionPosition_YOffset t') = 7
         \<and> GetSelectionRects t' = Some (Inr [])"
    by (simp add: s)
  with r h show ?thesis by blast
qed

text \<open>
  C8, amended. \<^verbatim>\<open>IsSelectionActive\<close>, \<^verbatim>\<open>SetBoxSelection\<close> and \<^verbatim>\<open>ClearSelection\<close> are
  total and cannot fail. \<^verbatim>\<open>_GetSelectionRects\<close> and \<^verbatim>\<open>RetrieveSelectedTextFromBuffer\<close>
  return the empty sequence and the empty string when no selection is active (after
  \<^verbatim>\<open>ClearSelection\<close>, for one). On an active selection they fail with the
  arithmetic-overflow exception when the row plus frozen row offset of an endpoint leaves
  the 16-bit range; when both endpoints resolve and the bottom row is below 32767 they
  return, the text being the concatenation of the buffer's fragments for the rows.
\<close>

theorem queries_fail_only_on_overflow:
  "(\<not> selectionActive t
      \<longrightarrow> GetSelectionRects t = Some (Inr [])
          \<and> RetrieveSelectedTextFromBuffer t trim = Some (Inr []))
   \<and> (selectionActive t
        \<and> (\<not> in_SHORT (anchorAbsoluteRow t) \<or> \<not> in_SHORT (endAbsoluteRow t))
      \<longrightarrow> GetSelectionRects t = Some (Inl ArithmeticOverflow)
          \<and> RetrieveSelectedTextFromBuffer t trim = Some (Inl ArithmeticOverflow))
   \<and> (selectionActive t \<and> in_SHORT (anchorAbsoluteRow t) \<and> in_SHORT (endAbsoluteRow t)
        \<and> max (anchorAbsoluteRow t) (endAbsoluteRow t) < SHORT_MAX
      \<longrightarrow> (\<exists>rects. GetSelectionRects t = Some (Inr rects)
            \<and> RetrieveSelectedTextFromBuffer t trim
                = Some (Inr (concat (GetTextForClipboard (buffer t) (\<not> boxSelection t)
                                       trim rects)))))
   \<and> IsSelectionActive t = selectionActive t
   \<and> SetBoxSelection t isEnabled = t\<lparr>boxSelection := isEnabled\<rparr>
   \<and> \<not> IsSelectionActive (ClearSelection t)
   \<and> GetSelectionRects (ClearSelection t) = Some (Inr [])
   \<and> RetrieveSelectedTextFromBuffer (ClearSelection t) trim = Some (Inr [])"
proof (intro conjI impI)
  assume "\<not> selectionActive t"
  then show "GetSelectionRects t = Some (Inr [])" by (rule GetSelectionRects_inactive)
  then show "RetrieveSelectedTextFromBuffer t trim = Some (Inr [])"
    by (simp add: RetrieveSelectedTextFromBuffer_eq GetTextForClipboard_no_rows)
next
  assume "selectionActive t
        \<and> (\<not> in_SHORT (anchorAbsoluteRow t) \<or> \<not> in_SHORT (endAbsoluteRow t))"
  then show o: "GetSelectionRects t = Some (Inl ArithmeticOverflow)"
    by (simp add: GetSelectionRects_overflow)
  then show "RetrieveSelectedTextFromBuffer t trim = Some (Inl ArithmeticOverflow)"
    by (simp add: RetrieveSelectedTextFromBuffer_eq)
next
  assume "selectionActive t \<and> in_SHORT (anchorAbsoluteRow t) \<and> in_SHORT (endAbsoluteRow t)
        \<and> max (anchorAbsoluteRow t) (endAbsoluteRow t) < SHORT_MAX"
  then show "\<exists>rects. GetSelectionRects t = Some (Inr rects)
            \<and> RetrieveSelectedTextFromBuffer t trim
                = Some (Inr (concat (GetTextForClipboard (buffer t) (\<not> boxSelection t)
                                       trim rects)))"
    by (simp add: GetSelectionRects_rows RetrieveSelectedTextFromBuffer_eq)
next
  have c: "\<not> selectionActive (ClearSelection t)" by (simp add: ClearSelection_def)
  then show "\<not> IsSelectionActive (ClearSelection t)" by (simp add: IsSelectionActive_def)
  from c show g: "GetSelectionRects (ClearSelection t) = Some (Inr [])"
    by (rule GetSelectionRects_inactive)
  then show "RetrieveSelectedTextFromBuffer (ClearSelection t) trim = Some (Inr [])"
    by (simp add: RetrieveSelectedTextFromBuffer_eq GetTextForClipboard_no_rows)
qed (simp_all add: IsSelectionActive_def SetBoxSelection_def)

text \<open>An idle terminal, Scenario B, and a selection on viewport row 32767 recorded with
  row offset 1.\<close>

theorem queries_fail_only_on_overflow_witness:
  "\<not> selectionActive (idleTerminal (plainBuffer 9) (ClampedViewport 0 9) 0 0)
   \<and> GetSelectionRects (idleTerminal (plainBuffer 9) (ClampedViewport 0 9) 0 0) = Some (Inr [])
   \<and> RetrieveSelectedTextFromBuffer (idleTerminal (plainBuffer 9) (ClampedViewport 0 9) 0 0) True
       = Some (Inr [])
   \<and> selectionActive (selectingTerminal (plainBuffer 9) (ClampedViewport 0 9) False
        \<lparr>X = 3, Y = 1\<rparr> \<lparr>X = 2, Y = 3\<rparr> 0)
   \<and> (\<exists>rects. GetSelectionRects (selectingTerminal (plainBuffer 9) (ClampedViewport 0 9) False
                  \<lparr>X = 3, Y = 1\<rparr> \<lparr>X = 2, Y = 3\<rparr> 0) = Some (Inr rects))
   \<and> selectionActive (selectingTerminal (plainBuffer 9) (ClampedViewport 0 9) False
        \<lparr>X = 0, Y = 32767\<rparr> \<lparr>X = 0, Y = 32767\<rparr> 1)
   \<and> RetrieveSelectedTextFromBuffer (selectingTerminal (plainBuffer 9) (ClampedViewport 0 9) False
        \<lparr>X = 0, Y = 32767\<rparr> \<lparr>X = 0, Y = 32767\<rparr> 1) True = Some (Inl ArithmeticOverflow)"
proof -
  let ?I = "idleTerminal (plainBuffer 9) (ClampedViewport 0 9) 0 0"
  let ?T = "selectingTerminal (plainBuffer 9) (ClampedViewport 0 9) False
              \<lparr>X = 3, Y = 1\<rparr> \<lparr>X = 2, Y = 3\<rparr> 0"
  let ?O = "selectingTerminal (plainBuffer 9) (ClampedViewport 0 9) False
              \<lparr>X = 0, Y = 32767\<rparr> \<lparr>X = 0, Y = 32767\<rparr> 1"
  have i: "\<not> selectionActive ?I" by (simp add: idleTerminal_def)
  have a: "selectionActive ?T \<and> in_SHORT (anchorAbsoluteRow ?T) \<and> in_SHORT (endAbsoluteRow ?T)
        \<and> max (anchorAbsoluteRow ?T) (endAbsoluteRow ?T) < SHORT_MAX"
    by (simp add: plain_terminal_rows in_SHORT_def SHORT_MIN_def SHORT_MAX_def)
  have ov: "selectionActive ?O
        \<and> (\<not> in_SHORT (anchorAbsoluteRow ?O) \<or> \<not> in_SHORT (endAbsoluteRow ?O))"
    by (simp add: plain_terminal_rows in_SHORT_def SHORT_MIN_def SHORT_MAX_def)
  show ?thesis
    using queries_fail_only_on_overflow [of ?I True] queries_fail_only_on_overflow [of ?T True]
      queries_fail_only_on_overflow [of ?O True] i a ov
    by blast
qed

text \<open>
  The claim as stated fails on an active selection that does not resolve: a selection
  begun at viewport row 32767 while the view starts at absolute row 1 makes both queries
  raise the overflow exception.
\<close>

theorem query_overflow_counterexample:
  "SetSelectionAnchor (idleTerminal (plainBuffer 9) (ClampedViewport 0 9) 0 1) \<lparr>X = 0, Y = 32767\<rparr>
     = Inr (selectingTerminal (plainBuffer 9) (ClampedViewport 0 9) False
              \<lparr>X = 0, Y = 32767\<rparr> \<lparr>X = 0, Y = 32767\<rparr> 1)
   \<and> GetSelectionRects (selectingTerminal (plainBuffer 9) (ClampedViewport 0 9) False
              \<lparr>X = 0, Y = 32767\<rparr> \<lparr>X = 0, Y = 32767\<rparr> 1)
       = Some (Inl ArithmeticOverflow)
   \<and> RetrieveSelectedTextFromBuffer (selectingTerminal (plainBuffer 9) (ClampedViewport 0 9) False
              \<lparr>X = 0, Y = 32767\<rparr> \<lparr>X = 0, Y = 32767\<rparr> 1) False
       = Some (Inl ArithmeticOverflow)"
proof -
  let ?O = "selectingTerminal (plainBuffer 9) (ClampedViewport 0 9) False
              \<lparr>X = 0, Y = 32767\<rparr> \<lparr>X = 0, Y = 32767\<rparr> 1"
  have g: "GetSelectionRects ?O = Some (Inl ArithmeticOverflow)"
    by (rule GetSelectionRects_overflow)
      (simp_all add: plain_terminal_rows in_SHORT_def SHORT_MIN_def SHORT_MAX_def)
  have s: "SetSelectionAnchor (idleTerminal (plainBuffer 9) (ClampedViewport 0 9) 0 1)
      \<lparr>X = 0, Y = 32767\<rparr> = Inr ?O"
    by (simp add: SetSelectionAnchor_eq idleTerminal_def selectingTerminal_def
        in_SHORT_def SHORT_MIN_def SHORT_MAX_def)
  show ?thesis using g s by (simp add: RetrieveSelectedTextFromBuffer_eq)
qed

end
